theory Spec2Isabelle
  imports Complex_Main "HOL-Library.Multiset"
begin

section \<open>Numbers\<close>

text \<open>
  A JavaScript number is a real number or NaN: \<open>Math.PI\<close> is \<open>Num pi\<close>, an arithmetic
  operation with a NaN operand is NaN, and every comparison with NaN is false. Rounding
  and the infinities are outside the model. The program divides by zero only as \<open>0/0\<close>
  (\<open>vectorAngle\<close> of two coinciding points), which is NaN, and so is every division by
  zero here.
\<close>

datatype number = Num real | NaN

definition quotient :: "number \<Rightarrow> number \<Rightarrow> number" where
  "quotient a b =
     (case (a, b) of (Num r, Num s) \<Rightarrow> (if s = 0 then NaN else Num (r / s)) | _ \<Rightarrow> NaN)"

instantiation number :: "{plus, minus, uminus, times, inverse, abs, ord}"
begin

definition plus_number_def:
  "(a::number) + b = (case (a, b) of (Num r, Num s) \<Rightarrow> Num (r + s) | _ \<Rightarrow> NaN)"

definition minus_number_def:
  "(a::number) - b = (case (a, b) of (Num r, Num s) \<Rightarrow> Num (r - s) | _ \<Rightarrow> NaN)"

definition uminus_number_def:
  "- (a::number) = (case a of Num r \<Rightarrow> Num (- r) | NaN \<Rightarrow> NaN)"

definition times_number_def:
  "(a::number) * b = (case (a, b) of (Num r, Num s) \<Rightarrow> Num (r * s) | _ \<Rightarrow> NaN)"

definition divide_number_def:
  "divide (a::number) b = quotient a b"

definition inverse_number_def:
  "inverse (a::number) = quotient (Num 1) a"

definition abs_number_def:
  "\<bar>a::number\<bar> = (case a of Num r \<Rightarrow> Num \<bar>r\<bar> | NaN \<Rightarrow> NaN)"

definition less_number_def:
  "(a::number) < b = (case (a, b) of (Num r, Num s) \<Rightarrow> r < s | _ \<Rightarrow> False)"

definition less_eq_number_def:
  "(a::number) \<le> b = (case (a, b) of (Num r, Num s) \<Rightarrow> r \<le> s | _ \<Rightarrow> False)"

instance ..

end

lemma number_arith [simp]:
  "Num r + Num s = Num (r + s)" "Num r - Num s = Num (r - s)" "- Num r = Num (- r)"
  "Num r * Num s = Num (r * s)" "\<bar>Num r\<bar> = Num \<bar>r\<bar>"
  "(Num r < Num s) = (r < s)" "(Num r \<le> Num s) = (r \<le> s)"
  "s \<noteq> 0 \<Longrightarrow> Num r / Num s = Num (r / s)" "Num r / Num 0 = NaN"
  by (simp_all add: plus_number_def minus_number_def uminus_number_def times_number_def
        abs_number_def less_number_def less_eq_number_def divide_number_def quotient_def)

lemma number_NaN [simp]:
  "NaN + a = NaN" "a + NaN = NaN" "NaN - a = NaN" "a - NaN = NaN" "- NaN = NaN"
  "NaN * a = NaN" "a * NaN = NaN" "NaN / a = NaN" "a / NaN = NaN" "\<bar>NaN\<bar> = NaN"
  "\<not> NaN < a" "\<not> a < NaN" "\<not> NaN \<le> a" "\<not> a \<le> NaN"
  by (simp_all add: plus_number_def minus_number_def uminus_number_def times_number_def
        abs_number_def less_number_def less_eq_number_def divide_number_def quotient_def
        split: number.splits)

definition Math_PI :: number where
  "Math_PI = Num pi"

definition Math_sqrt :: "number \<Rightarrow> number" where
  "Math_sqrt a = (case a of Num r \<Rightarrow> (if 0 \<le> r then Num (sqrt r) else NaN) | NaN \<Rightarrow> NaN)"

definition Math_pow :: "number \<Rightarrow> nat \<Rightarrow> number" where
  "Math_pow a n = (case a of Num r \<Rightarrow> Num (r ^ n) | NaN \<Rightarrow> NaN)"

definition Math_cos :: "number \<Rightarrow> number" where
  "Math_cos a = (case a of Num r \<Rightarrow> Num (cos r) | NaN \<Rightarrow> NaN)"

definition Math_sin :: "number \<Rightarrow> number" where
  "Math_sin a = (case a of Num r \<Rightarrow> Num (sin r) | NaN \<Rightarrow> NaN)"

definition Math_acos :: "number \<Rightarrow> number" where
  "Math_acos a =
     (case a of Num r \<Rightarrow> (if - 1 \<le> r \<and> r \<le> 1 then Num (arccos r) else NaN) | NaN \<Rightarrow> NaN)"

definition Math_atan :: "number \<Rightarrow> number" where
  "Math_atan a = (case a of Num r \<Rightarrow> Num (arctan r) | NaN \<Rightarrow> NaN)"

definition Math_sign :: "number \<Rightarrow> number" where
  "Math_sign a = (case a of Num r \<Rightarrow> Num (sgn r) | NaN \<Rightarrow> NaN)"

text \<open>An absent numeric field read in arithmetic: \<open>undefined\<close> converts to NaN.\<close>

definition toNumber :: "number option \<Rightarrow> number" where
  "toNumber v = (case v of None \<Rightarrow> NaN | Some n \<Rightarrow> n)"

section \<open>Data model of dxf2price.ts\<close>

text \<open>
  Optional fields are options, \<open>None\<close> standing for \<open>undefined\<close>: the numeric ones
  (\<open>radius\<close>, \<open>startAngle\<close>, \<open>endAngle\<close>, \<open>z\<close>, \<open>bulge\<close>) as well as those holding objects or
  arrays (\<open>vertices\<close>, \<open>center\<close>, \<open>edges\<close>).

  A vertex has the coordinate type as parameter. The vertex arrays read from the file
  have the required numeric \<open>x\<close> and \<open>y\<close> of the interface \<open>Vertice\<close>: \<open>real Vertice\<close>. The
  vertices the program computes (the edges of arcs and circles, the centre of a
  decurved arc) may have NaN coordinates: \<open>number Vertice\<close>; \<open>numeric\<close> is the same vertex
  read at that type.
\<close>

datatype error = Error string | TypeError string

fun message :: "error \<Rightarrow> string" where
  "message (Error m) = m"
| "message (TypeError m) = m"

record 'n Vertice =
  x :: 'n
  y :: 'n
  z :: "real option"
  bulge :: "real option"

definition numeric :: "real Vertice \<Rightarrow> number Vertice" where
  "numeric v = \<lparr> x = Num (x v), y = Num (y v), z = z v, bulge = bulge v \<rparr>"

text \<open>The \<open>type\<close> string of an entity; \<open>OtherType s\<close> is any string other than the four.\<close>

datatype EntityType = LINE | ARC | CIRCLE | LWPOLYLINE | OtherType string

text \<open>
  Only \<open>edges[0]\<close> and \<open>edges[1]\<close> are ever read or written, so \<open>edges\<close> is a pair of
  optional vertices: a slot is \<open>None\<close> where the array has no element at that index.
  The back reference \<open>polyline\<close> and \<open>layer\<close> are never read and are left out.
\<close>

record Entity =
  type :: EntityType
  vertices :: "real Vertice list option"
  center :: "number Vertice option"
  radius :: "number option"
  startAngle :: "number option"
  endAngle :: "number option"
  edges :: "(number Vertice option \<times> number Vertice option) option"
  reverse :: bool
  shape :: bool
  clockwise :: bool

type_synonym DxfData = "Entity list"

text \<open>The shape under construction; \<open>'p\<close> is the geometry kernel's polygon handle.\<close>

record 'p Shape =
  entities :: "Entity list"
  start :: "number Vertice option"
  end' :: "number Vertice option"
  perimeter :: "number option"
  area :: "number option"
  closed :: bool
  single :: bool
  polygon :: "'p option"
  skippedIncludesCheck :: bool

type_synonym UnknownEntities = "EntityType \<rightharpoonup> nat"

section \<open>Reading the file\<close>

text \<open>
  The file system and the DXF parser are outside the repository: \<open>readFile\<close> gives the
  content or rejects, \<open>parseSync\<close> gives the entity list or throws.
\<close>

record Env =
  readFile :: "string \<Rightarrow> error + string"
  parseSync :: "string \<Rightarrow> error + DxfData"

definition readDxf :: "Env \<Rightarrow> string \<Rightarrow> error + DxfData option" where
  "readDxf env filePath =
     (case readFile env filePath of
        Inl e \<Rightarrow> Inl e
      | Inr content \<Rightarrow>
          (case parseSync env content of
             Inl _ \<Rightarrow> Inr None
           | Inr data \<Rightarrow> Inr (Some data)))"

section \<open>Lengths\<close>

definition lineLength :: "number Vertice \<Rightarrow> number Vertice \<Rightarrow> number" where
  "lineLength p1 p2 = Math_sqrt (Math_pow (x p1 - x p2) 2 + Math_pow (y p1 - y p2) 2)"

definition undefinedRead :: error where
  "undefinedRead = TypeError ''Cannot read properties of undefined''"

definition unknownEntityLength :: error where
  "unknownEntityLength = Error ''Unknown entity: [object Object]''"

definition calcEntityLength :: "Entity \<Rightarrow> error + number" where
  "calcEntityLength entity =
     (case type entity of
        ARC \<Rightarrow>
          (let angle = toNumber (endAngle entity) - toNumber (startAngle entity);
               angle = (if angle < Num 0 then Num 2 * Math_PI + angle else angle);
               angle = (if clockwise entity then Num 2 * Math_PI - angle else angle)
           in Inr (angle * toNumber (radius entity)))
      | LINE \<Rightarrow>
          (case edges entity of
             Some (Some p1, Some p2) \<Rightarrow> Inr (lineLength p1 p2)
           | _ \<Rightarrow> Inl undefinedRead)
      | CIRCLE \<Rightarrow> Inr (Num 2 * Math_PI * toNumber (radius entity))
      | _ \<Rightarrow> Inl unknownEntityLength)"

section \<open>Entity normalizer\<close>

definition getArcPoint :: "number Vertice \<Rightarrow> number option \<Rightarrow> number option \<Rightarrow> number Vertice" where
  "getArcPoint c r angle =
     \<lparr> x = Math_cos (toNumber angle) * toNumber r + x c,
       y = Math_sin (toNumber angle) * toNumber r + y c, z = z c, bulge = None \<rparr>"

definition truthy :: "real option \<Rightarrow> bool" where
  "truthy b = (case b of None \<Rightarrow> False | Some v \<Rightarrow> v \<noteq> 0)"

definition firstTwo :: "real Vertice list \<Rightarrow> number Vertice option \<times> number Vertice option" where
  "firstTwo vs =
     (case vs of
        [] \<Rightarrow> (None, None)
      | [a] \<Rightarrow> (Some (numeric a), None)
      | a # b # _ \<Rightarrow> (Some (numeric a), Some (numeric b)))"

text \<open>
  The body of the \<open>forEach\<close> callback of \<open>findEdges\<close>. A closed LWPOLYLINE with an empty
  vertex array gets the edges \<open>[undefined, undefined]\<close>; the \<open>undefined\<close> it pushes to
  \<open>vertices\<close> is skipped by every later reader, so the model keeps that list empty.
  A circle or an arc without \<open>radius\<close> gets edges with NaN coordinates.
\<close>

definition findEdge :: "Entity \<Rightarrow> error + Entity" where
  "findEdge entity =
     (case type entity of
        ARC \<Rightarrow>
          (case center entity of
             None \<Rightarrow> Inl undefinedRead
           | Some c \<Rightarrow>
               Inr (entity\<lparr>edges :=
                 Some (Some (getArcPoint c (radius entity) (startAngle entity)),
                       Some (getArcPoint c (radius entity) (endAngle entity)))\<rparr>))
      | LINE \<Rightarrow> Inr (entity\<lparr>edges := map_option firstTwo (vertices entity)\<rparr>)
      | LWPOLYLINE \<Rightarrow>
          (case vertices entity of
             None \<Rightarrow> Inl undefinedRead
           | Some [] \<Rightarrow>
               (if shape entity then Inr (entity\<lparr>edges := Some (None, None)\<rparr>)
                else Inl undefinedRead)
           | Some (v0 # vs) \<Rightarrow>
               (let vs' = (if shape entity \<or> truthy (bulge (last (v0 # vs)))
                           then (v0 # vs) @ [v0] else v0 # vs)
                in Inr (entity\<lparr>vertices := Some vs',
                                edges := Some (Some (numeric v0), Some (numeric (last vs')))\<rparr>)))
      | CIRCLE \<Rightarrow>
          (case center entity of
             None \<Rightarrow> Inl undefinedRead
           | Some c \<Rightarrow>
               (let p = \<lparr> x = x c + toNumber (radius entity), y = y c,
                          z = None, bulge = None \<rparr>
                in Inr (entity\<lparr>edges := Some (Some p, Some p)\<rparr>)))
      | OtherType _ \<Rightarrow> Inr entity)"

fun mapM :: "('a \<Rightarrow> error + 'b) \<Rightarrow> 'a list \<Rightarrow> error + 'b list" where
  "mapM f [] = Inr []"
| "mapM f (a # as) =
     (case f a of
        Inl e \<Rightarrow> Inl e
      | Inr b \<Rightarrow> (case mapM f as of Inl e \<Rightarrow> Inl e | Inr bs \<Rightarrow> Inr (b # bs)))"

text \<open>\<open>data\<close> is \<open>None\<close> when \<open>readDxf\<close> returned \<open>null\<close>: \<open>data.entities\<close> then raises.\<close>

definition findEdges :: "DxfData option \<Rightarrow> error + DxfData" where
  "findEdges data =
     (case data of None \<Rightarrow> Inl undefinedRead | Some ents \<Rightarrow> mapM findEdge ents)"

section \<open>Polyline decurver\<close>

definition EQUAL_TRESHOLD :: number where
  "EQUAL_TRESHOLD = Num 0.01"

definition pointsAreEqual :: "number Vertice option \<Rightarrow> number Vertice option \<Rightarrow> error + bool" where
  "pointsAreEqual p1 p2 =
     (case (p1, p2) of
        (Some a, Some b) \<Rightarrow> Inr (\<bar>x a - x b\<bar> + \<bar>y a - y b\<bar> < EQUAL_TRESHOLD)
      | _ \<Rightarrow> Inl undefinedRead)"

text \<open>
  \<open>swapEdges\<close> is only called on entities whose \<open>edges\<close> are set (the scan guards it with
  \<open>if (entity.edges)\<close>, the decurver builds its sub-primitives with edges). For a LINE
  read from the file \<open>edges\<close> is the \<open>vertices\<close> array itself; \<open>vertices\<close> of a LINE is not
  read again, so the model swaps \<open>edges\<close> only.
\<close>

definition swapEdges :: "Entity \<Rightarrow> Entity" where
  "swapEdges entity =
     entity\<lparr>edges := map_option (\<lambda>(e0, e1). (e1, e0)) (edges entity), reverse := True\<rparr>"

definition vectorAngle :: "number Vertice \<Rightarrow> number Vertice \<Rightarrow> number" where
  "vectorAngle p1 p2 =
     (let angle = Math_acos ((x p2 - x p1) / lineLength p1 p2)
      in if y p2 < y p1 then Num 2 * Math_PI - angle else angle)"

definition cloneVertice :: "'n Vertice \<Rightarrow> 'n Vertice" where
  "cloneVertice v = \<lparr> x = x v, y = y v, z = z v, bulge = bulge v \<rparr>"

text \<open>An object with only its \<open>type\<close>: every optional field absent, every flag unset.\<close>

definition blankEntity :: "EntityType \<Rightarrow> Entity" where
  "blankEntity t =
     \<lparr> type = t, vertices = None, center = None, radius = None, startAngle = None,
       endAngle = None, edges = None, reverse = False, shape = False, clockwise = False \<rparr>"

text \<open>One step of the \<open>forEach\<close> of \<open>transofrmEntity\<close>: the sub-primitive from a vertex to the next.\<close>

definition segmentEntity :: "real Vertice \<Rightarrow> real Vertice \<Rightarrow> Entity" where
  "segmentEntity verticeParam nextParam =
     (let vertice = cloneVertice verticeParam;
          nextVertice = cloneVertice nextParam
      in if \<not> truthy (bulge vertice) then
           (blankEntity LINE)\<lparr>vertices := Some [vertice, nextVertice],
                               edges := Some (Some (numeric vertice), Some (numeric nextVertice))\<rparr>
         else
           (let b = Num (case bulge vertice of Some v \<Rightarrow> v | None \<Rightarrow> 0);
                halfSegment = lineLength (numeric vertice) (numeric nextVertice) / Num 2;
                aGamma = Math_PI / Num 2 - Num 2 * Math_atan \<bar>b\<bar>;
                r = \<bar>halfSegment / Math_cos aGamma\<bar>;
                halfSegmentVertice =
                  \<lparr> x = (x (numeric vertice) + x (numeric nextVertice)) / Num 2,
                    y = (y (numeric vertice) + y (numeric nextVertice)) / Num 2,
                    z = None, bulge = None \<rparr>;
                aBeta = vectorAngle (numeric vertice) halfSegmentVertice;
                centerAngle = aBeta + aGamma * Math_sign b;
                c = \<lparr> x = x (numeric vertice) + r * Math_cos centerAngle,
                      y = y (numeric vertice) + r * Math_sin centerAngle,
                      z = None, bulge = None \<rparr>
            in (blankEntity ARC)\<lparr>center := Some c, radius := Some r,
                                  startAngle := Some (vectorAngle c (numeric vertice)),
                                  endAngle := Some (vectorAngle c (numeric nextVertice)),
                                  edges := Some (Some (numeric vertice), Some (numeric nextVertice)),
                                  clockwise := (Math_sign b = Num (- 1))\<rparr>))"

fun segments :: "real Vertice list \<Rightarrow> Entity list" where
  "segments (v # n # vs) = segmentEntity v n # segments (n # vs)"
| "segments _ = []"

definition transofrmEntity :: "Entity \<Rightarrow> error + Entity list" where
  "transofrmEntity entity =
     (if type entity \<noteq> LWPOLYLINE then Inr [entity]
      else
        (case vertices entity of
           None \<Rightarrow> Inl undefinedRead
         | Some vs \<Rightarrow>
             (let ents = segments vs
              in if reverse entity then Inr (map swapEdges (rev ents)) else Inr ents)))"

section \<open>Contour stitcher\<close>

text \<open>The filter at the head of \<open>findShapes\<close>: the pool and the tally of entities without edges.\<close>

fun countUnknown :: "UnknownEntities \<Rightarrow> Entity list \<Rightarrow> UnknownEntities" where
  "countUnknown u [] = u"
| "countUnknown u (entity # es) =
     (if edges entity = None
      then countUnknown (u(type entity \<mapsto> (case u (type entity) of None \<Rightarrow> 0 | Some n \<Rightarrow> n) + 1)) es
      else countUnknown u es)"

definition withEdges :: "Entity list \<Rightarrow> Entity list" where
  "withEdges es = filter (\<lambda>entity. edges entity \<noteq> None) es"

text \<open>
  The \<open>for (let index in entities)\<close> scan. \<open>before\<close> holds the entities already passed
  over; on a match the entity is spliced out and the scan stops. \<open>None\<close> means that
  \<open>nextNotFound\<close> stayed true.
\<close>

fun scan :: "'p Shape \<Rightarrow> Entity list \<Rightarrow> Entity list \<Rightarrow> error + ('p Shape \<times> Entity list) option" where
  "scan sh before [] = Inr None"
| "scan sh before (entity # rest) =
     (case edges entity of
        None \<Rightarrow> scan sh (before @ [entity]) rest
      | Some (e0, e1) \<Rightarrow>
          (case pointsAreEqual e0 (start sh) of
             Inl err \<Rightarrow> Inl err
           | Inr True \<Rightarrow>
               (case transofrmEntity (swapEdges entity) of
                  Inl err \<Rightarrow> Inl err
                | Inr subs \<Rightarrow>
                    Inr (Some (sh\<lparr>entities := subs @ entities sh, start := e1\<rparr>, before @ rest)))
           | Inr False \<Rightarrow>
          (case pointsAreEqual e0 (end' sh) of
             Inl err \<Rightarrow> Inl err
           | Inr True \<Rightarrow>
               (case transofrmEntity entity of
                  Inl err \<Rightarrow> Inl err
                | Inr subs \<Rightarrow>
                    Inr (Some (sh\<lparr>entities := entities sh @ subs, end' := e1\<rparr>, before @ rest)))
           | Inr False \<Rightarrow>
          (case pointsAreEqual e1 (start sh) of
             Inl err \<Rightarrow> Inl err
           | Inr True \<Rightarrow>
               (case transofrmEntity entity of
                  Inl err \<Rightarrow> Inl err
                | Inr subs \<Rightarrow>
                    Inr (Some (sh\<lparr>entities := subs @ entities sh, start := e0\<rparr>, before @ rest)))
           | Inr False \<Rightarrow>
          (case pointsAreEqual e1 (end' sh) of
             Inl err \<Rightarrow> Inl err
           | Inr True \<Rightarrow>
               (case transofrmEntity (swapEdges entity) of
                  Inl err \<Rightarrow> Inl err
                | Inr subs \<Rightarrow>
                    Inr (Some (sh\<lparr>entities := entities sh @ subs, end' := e0\<rparr>, before @ rest)))
           | Inr False \<Rightarrow> scan sh (before @ [entity]) rest)))))"

lemma scan_shrinks:
  "scan sh before pool = Inr (Some (sh', pool')) \<Longrightarrow> Suc (length pool') = length before + length pool"
proof (induction pool arbitrary: before)
  case Nil
  then show ?case by simp
next
  case (Cons entity rest)
  from Cons.prems Cons.IH [of "before @ [entity]"] show ?case
    by (auto split: option.splits sum.splits bool.splits)
qed

text \<open>
  The inner \<open>while (!nextNotFound)\<close> loop: scan, attach the first match, stop when the
  shape closes or when a whole scan finds nothing.
\<close>

function grow :: "'p Shape \<Rightarrow> Entity list \<Rightarrow> error + ('p Shape \<times> Entity list)" where
  "grow sh pool =
     (case scan sh [] pool of
        Inl err \<Rightarrow> Inl err
      | Inr None \<Rightarrow>
          (case pointsAreEqual (start sh) (end' sh) of
             Inl err \<Rightarrow> Inl err
           | Inr True \<Rightarrow> Inr (sh\<lparr>closed := True\<rparr>, pool)
           | Inr False \<Rightarrow> Inr (sh, pool))
      | Inr (Some (sh', pool')) \<Rightarrow>
          (case pointsAreEqual (start sh') (end' sh') of
             Inl err \<Rightarrow> Inl err
           | Inr True \<Rightarrow> Inr (sh'\<lparr>closed := True\<rparr>, pool')
           | Inr False \<Rightarrow> grow sh' pool'))"
  by pat_completeness auto
termination
  by (relation "measure (\<lambda>(sh, pool). length pool)") (auto dest: scan_shrinks)

declare grow.simps [simp del]

lemma grow_pool_length: "grow sh pool = Inr (sh', pool') \<Longrightarrow> length pool' \<le> length pool"
proof (induction sh pool arbitrary: sh' pool' rule: grow.induct)
  case (1 sh pool)
  show ?case
  proof (cases "scan sh [] pool")
    case (Inl err)
    with "1.prems" show ?thesis by (subst (asm) grow.simps) simp
  next
    case (Inr found)
    show ?thesis
    proof (cases found)
      case None
      with Inr "1.prems" show ?thesis
        by (subst (asm) grow.simps) (auto split: sum.splits bool.splits)
    next
      case (Some r)
      obtain sh1 pool1 where r: "r = (sh1, pool1)" by (cases r)
      have sc: "scan sh [] pool = Inr (Some (sh1, pool1))" using Inr Some r by simp
      from scan_shrinks [OF sc] have len: "length pool1 < length pool" by simp
      show ?thesis
      proof (cases "pointsAreEqual (start sh1) (end' sh1)")
        case (Inl err)
        with sc "1.prems" show ?thesis by (subst (asm) grow.simps) simp
      next
        case eq: (Inr b)
        show ?thesis
        proof (cases b)
          case True
          with eq sc "1.prems" len show ?thesis by (subst (asm) grow.simps) auto
        next
          case False
          with eq sc "1.prems" have g: "grow sh1 pool1 = Inr (sh', pool')"
            by (subst (asm) grow.simps) simp
          have "length pool' \<le> length pool1"
            using "1.IH" [of "Some (sh1, pool1)" "(sh1, pool1)" sh1 pool1 False sh' pool'] sc eq False g
            by simp
          with len show ?thesis by simp
        qed
      qed
    qed
  qed
qed

definition seedShape :: "Entity \<Rightarrow> Entity list \<Rightarrow> number Vertice option \<Rightarrow> number Vertice option \<Rightarrow> 'p Shape" where
  "seedShape startEntity subs e0 e1 =
     \<lparr> entities = subs, start = e0, end' = e1, perimeter = None, area = None,
       closed = (type startEntity = CIRCLE), single = (type startEntity = CIRCLE),
       polygon = None, skippedIncludesCheck = False \<rparr>"

text \<open>The outer \<open>while (entities.length)\<close> loop over the pool.\<close>

function stitch :: "Entity list \<Rightarrow> error + 'p Shape list" where
  "stitch [] = Inr []"
| "stitch (startEntity # pool) =
     (case transofrmEntity startEntity of
        Inl err \<Rightarrow> Inl err
      | Inr subs \<Rightarrow>
          (case edges startEntity of
             None \<Rightarrow> Inl undefinedRead
           | Some (e0, e1) \<Rightarrow>
               (case pointsAreEqual e0 e1 of
                  Inl err \<Rightarrow> Inl err
                | Inr True \<Rightarrow>
                    (case stitch pool of
                       Inl err \<Rightarrow> Inl err
                     | Inr shs \<Rightarrow> Inr ((seedShape startEntity subs e0 e1)\<lparr>closed := True\<rparr> # shs))
                | Inr False \<Rightarrow>
                    (case grow (seedShape startEntity subs e0 e1) pool of
                       Inl err \<Rightarrow> Inl err
                     | Inr (sh, pool') \<Rightarrow>
                         (case stitch pool' of
                            Inl err \<Rightarrow> Inl err
                          | Inr shs \<Rightarrow> Inr (sh # shs))))))"
  by pat_completeness auto
termination
  by (relation "measure length") (auto dest: grow_pool_length simp: less_Suc_eq_le)

record 'p FindShapesResult =
  shapes :: "'p Shape list"
  unknownEntities :: UnknownEntities

definition findShapes :: "DxfData \<Rightarrow> error + 'p FindShapesResult" where
  "findShapes data =
     (case stitch (withEdges data) of
        Inl err \<Rightarrow> Inl err
      | Inr shs \<Rightarrow> Inr \<lparr> shapes = shs, unknownEntities = countUnknown Map.empty data \<rparr>)"

section \<open>Geometry kernel\<close>

text \<open>
  The planar geometry library is outside the repository. Its shape constructors are data
  (\<open>Reversed\<close> is \<open>arc.reverse()\<close>, \<open>CircleArc\<close> is \<open>new Circle(c, r).toArc()\<close>); the polygon
  operations are parameters, each of which may throw. A radius or an angle that the
  entity lacks is handed to the library as it is (\<open>None\<close>). \<open>distanceTo\<close> is component 0 of the
  pair the library returns. \<open>now k\<close> is the \<open>k\<close>-th reading of \<open>new Date().getTime()\<close>
  inside one call of \<open>findMainShape\<close>, \<open>now 0\<close> being \<open>started\<close>.
\<close>

type_synonym Point = "number \<times> number"

datatype Face =
    Segment Point Point
  | Arc Point "number option" "number option" "number option" bool
  | Reversed Face
  | CircleArc Point "number option"

record 'p Kernel =
  newPolygon :: "Face list \<Rightarrow> error + 'p"
  isValid :: "'p \<Rightarrow> error + bool"
  area :: "'p \<Rightarrow> error + number"
  contains :: "'p \<Rightarrow> 'p \<Rightarrow> error + bool"
  distanceTo :: "'p \<Rightarrow> Face \<Rightarrow> error + number"

section \<open>Shape measurer\<close>

definition toPoint :: "number Vertice option \<Rightarrow> error + Point" where
  "toPoint vertice = (case vertice of None \<Rightarrow> Inl undefinedRead | Some v \<Rightarrow> Inr (x v, y v))"

text \<open>The body of the \<open>forEach\<close> of \<open>createPolygon\<close>: the face pushed for one entity.\<close>

definition face :: "Entity \<Rightarrow> error + Face" where
  "face entity =
     (case type entity of
        LINE \<Rightarrow>
          (case edges entity of
             None \<Rightarrow> Inl undefinedRead
           | Some (e0, e1) \<Rightarrow>
               (case toPoint e0 of
                  Inl err \<Rightarrow> Inl err
                | Inr p0 \<Rightarrow>
                    (case toPoint e1 of Inl err \<Rightarrow> Inl err | Inr p1 \<Rightarrow> Inr (Segment p0 p1))))
      | ARC \<Rightarrow>
          (case toPoint (center entity) of
             Inl err \<Rightarrow> Inl err
           | Inr c \<Rightarrow>
               (let arc = Arc c (radius entity) (startAngle entity) (endAngle entity)
                            (\<not> clockwise entity)
                in Inr (if reverse entity then Reversed arc else arc)))
      | CIRCLE \<Rightarrow>
          (case toPoint (center entity) of
             Inl err \<Rightarrow> Inl err
           | Inr c \<Rightarrow> Inr (CircleArc c (radius entity)))
      | _ \<Rightarrow> Inl (Error ''unknown entity''))"

definition createPolygon :: "'p Kernel \<Rightarrow> 'p Shape \<Rightarrow> error + 'p" where
  "createPolygon K sh =
     (case mapM face (entities sh) of
        Inl err \<Rightarrow> Inl err
      | Inr faces \<Rightarrow> newPolygon K faces)"

definition digitChar :: "nat \<Rightarrow> char" where
  "digitChar d = ''0123456789'' ! d"

function showNat :: "nat \<Rightarrow> string" where
  "showNat n = (if n < 10 then [digitChar n] else showNat (n div 10) @ [digitChar (n mod 10)])"
  by pat_completeness auto
termination
  by (relation "measure id") auto

declare showNat.simps [simp del]

text \<open>
  The callback of \<open>shapes.filter\<close> in \<open>getFileData\<close>: \<open>Some\<close> of the measured shape when it
  is kept, \<open>None\<close> when it is dropped, with the messages pushed to \<open>fileData.errors\<close>.
  \<open>isValid\<close> is called outside every \<open>try\<close>, so its exception escapes.
\<close>

definition measureShape :: "'p Kernel \<Rightarrow> nat \<Rightarrow> 'p Shape \<Rightarrow> error + ('p Shape option \<times> string list)" where
  "measureShape K index sh =
     (case createPolygon K sh of
        Inl e \<Rightarrow> Inr (None, [''Shape '' @ showNat index @ '' has errors '' @ message e])
      | Inr p \<Rightarrow>
          (case isValid K p of
             Inl e \<Rightarrow> Inl e
           | Inr valid \<Rightarrow>
               (let errs = (if valid then [] else [''Shape '' @ showNat index @ '' is invalid''])
                in case Kernel.area K p of
                     Inl e \<Rightarrow>
                       Inr (None, errs @ [''Can not compute area of the shape '' @ showNat index
                                           @ ''. '' @ message e])
                   | Inr a \<Rightarrow>
                       (case mapM calcEntityLength (entities sh) of
                          Inl e \<Rightarrow>
                            Inr (None, errs @ [''Can not compute perimeter of the shape ''
                                                @ showNat index @ ''. '' @ message e])
                        | Inr lens \<Rightarrow>
                            Inr (Some (sh\<lparr>polygon := Some p, Shape.area := Some a,
                                           perimeter := Some (foldl (+) (Num 0) lens)\<rparr>), errs)))))"

fun measureShapes :: "'p Kernel \<Rightarrow> nat \<Rightarrow> 'p Shape list \<Rightarrow> error + ('p Shape list \<times> string list)" where
  "measureShapes K index [] = Inr ([], [])"
| "measureShapes K index (sh # shs) =
     (case measureShape K index sh of
        Inl e \<Rightarrow> Inl e
      | Inr (kept, errs) \<Rightarrow>
          (case measureShapes K (Suc index) shs of
             Inl e \<Rightarrow> Inl e
           | Inr (ks, errs') \<Rightarrow>
               Inr ((case kept of None \<Rightarrow> ks | Some s \<Rightarrow> s # ks), errs @ errs')))"

section \<open>Main-shape resolver\<close>

definition MAIN_INCLUDES_CHECK_TIMEOUT :: int where
  "MAIN_INCLUDES_CHECK_TIMEOUT = 1 * 1000"

definition CHECK_TIMEOUT_MESSAGE :: string where
  "CHECK_TIMEOUT_MESSAGE = ''check_timeout''"

text \<open>
  \<open>a.polygon.contains(b.polygon)\<close>. Reading \<open>contains\<close> of an absent polygon raises; an
  absent argument is not met by \<open>getFileData\<close> (every surviving shape has its polygon)
  and is modelled as raising too.
\<close>

definition polygonContains :: "'p Kernel \<Rightarrow> 'p Shape \<Rightarrow> 'p Shape \<Rightarrow> error + bool" where
  "polygonContains K a b =
     (case (polygon a, polygon b) of
        (Some p, Some q) \<Rightarrow> contains K p q
      | _ \<Rightarrow> Inl undefinedRead)"

text \<open>The \<open>for\<close> loop that sets \<open>mainShapeIndex\<close>; \<open>others\<close> are the shapes from index \<open>i\<close> on.\<close>

fun probeMain :: "'p Kernel \<Rightarrow> 'p Shape \<Rightarrow> nat \<Rightarrow> 'p Shape list \<Rightarrow> error + int" where
  "probeMain K shape0 i [] = Inr (- 1)"
| "probeMain K shape0 i (shapeI # others) =
     (case polygonContains K shape0 shapeI of
        Inl e \<Rightarrow> Inl e
      | Inr True \<Rightarrow> Inr 0
      | Inr False \<Rightarrow>
          (case polygonContains K shapeI shape0 of
             Inl e \<Rightarrow> Inl e
           | Inr True \<Rightarrow> Inr (int i)
           | Inr False \<Rightarrow> probeMain K shape0 (Suc i) others))"

text \<open>
  \<open>shapes.splice(index, 1)\<close>: the removed element (if any) and the array left. A negative
  index counts from the end.
\<close>

definition splice1 :: "int \<Rightarrow> 'a list \<Rightarrow> 'a option \<times> 'a list" where
  "splice1 index xs =
     (let n = int (length xs);
          k = nat (if index < 0 then max (n + index) 0 else min index n)
      in (if k < length xs then Some (xs ! k) else None, take k xs @ drop (Suc k) xs))"

definition notAllInside :: error where
  "notAllInside = Error ''Not all shapes inside main shape''"

text \<open>
  The \<open>forEach\<close> inside the \<open>try\<close>, from index 1 on; \<open>k\<close> numbers the clock reading made
  after the containment test of the current shape.
\<close>

fun checkInside :: "'p Kernel \<Rightarrow> (nat \<Rightarrow> int) \<Rightarrow> 'p Shape \<Rightarrow> nat \<Rightarrow> 'p Shape list \<Rightarrow> error + unit" where
  "checkInside K now mainShape k [] = Inr ()"
| "checkInside K now mainShape k (sh # rest) =
     (case polygonContains K mainShape sh of
        Inl e \<Rightarrow> Inl e
      | Inr False \<Rightarrow> Inl notAllInside
      | Inr True \<Rightarrow>
          (if now k - now 0 > MAIN_INCLUDES_CHECK_TIMEOUT then Inl (Error CHECK_TIMEOUT_MESSAGE)
           else checkInside K now mainShape (Suc k) rest))"

text \<open>
  \<open>findMainShape\<close> returns the main shape (\<open>None\<close> for \<open>undefined\<close>, which the source returns
  on an empty array) together with the array \<open>shapes\<close> as the call leaves it: the caller
  reads that same, reordered array afterwards.
\<close>

definition findMainShape :: "'p Kernel \<Rightarrow> (nat \<Rightarrow> int) \<Rightarrow> 'p Shape list \<Rightarrow> error + ('p Shape option \<times> 'p Shape list)" where
  "findMainShape K now shs =
     (case shs of
        [] \<Rightarrow> Inr (None, [])
      | [only] \<Rightarrow> Inr (Some only, [only])
      | shape0 # others \<Rightarrow>
          (case probeMain K shape0 1 others of
             Inl e \<Rightarrow> Inl e
           | Inr mainShapeIndex \<Rightarrow>
               (case splice1 mainShapeIndex shs of
                  (None, rest) \<Rightarrow> Inr (None, rest)
                | (Some mainShape, rest) \<Rightarrow>
                    (case checkInside K now mainShape 1 rest of
                       Inl e \<Rightarrow>
                         (if message e = CHECK_TIMEOUT_MESSAGE
                          then Inr (Some (mainShape\<lparr>skippedIncludesCheck := True\<rparr>),
                                    mainShape\<lparr>skippedIncludesCheck := True\<rparr> # rest)
                          else Inl e)
                     | Inr _ \<Rightarrow> Inr (Some mainShape, mainShape # rest)))))"

section \<open>Bounding-box estimator\<close>

definition MAX_BORDER_DISTANCE :: number where
  "MAX_BORDER_DISTANCE = Num 10000"

record Rect =
  leftBottom :: "number Vertice"
  rightTop :: "number Vertice"

definition topSegment :: Face where
  "topSegment = Segment (- MAX_BORDER_DISTANCE, MAX_BORDER_DISTANCE)
                        (MAX_BORDER_DISTANCE, MAX_BORDER_DISTANCE)"

definition bottomSegment :: Face where
  "bottomSegment = Segment (- MAX_BORDER_DISTANCE, - MAX_BORDER_DISTANCE)
                           (MAX_BORDER_DISTANCE, - MAX_BORDER_DISTANCE)"

definition leftSegment :: Face where
  "leftSegment = Segment (- MAX_BORDER_DISTANCE, - MAX_BORDER_DISTANCE)
                         (- MAX_BORDER_DISTANCE, MAX_BORDER_DISTANCE)"

definition rightSegment :: Face where
  "rightSegment = Segment (MAX_BORDER_DISTANCE, - MAX_BORDER_DISTANCE)
                          (MAX_BORDER_DISTANCE, MAX_BORDER_DISTANCE)"

text \<open>\<open>findBounds\<close> returns \<open>null\<close> (\<open>None\<close>) for a shape without polygon.\<close>

definition findBounds :: "'p Kernel \<Rightarrow> 'p Shape \<Rightarrow> error + Rect option" where
  "findBounds K sh =
     (case polygon sh of
        None \<Rightarrow> Inr None
      | Some p \<Rightarrow>
          (case distanceTo K p topSegment of
             Inl e \<Rightarrow> Inl e
           | Inr distanceTop \<Rightarrow>
          (case distanceTo K p bottomSegment of
             Inl e \<Rightarrow> Inl e
           | Inr distanceBottom \<Rightarrow>
          (case distanceTo K p leftSegment of
             Inl e \<Rightarrow> Inl e
           | Inr distanceLeft \<Rightarrow>
          (case distanceTo K p rightSegment of
             Inl e \<Rightarrow> Inl e
           | Inr distanceRight \<Rightarrow>
               Inr (Some
                 \<lparr> leftBottom = \<lparr> x = distanceLeft - MAX_BORDER_DISTANCE,
                                  y = distanceBottom - MAX_BORDER_DISTANCE,
                                  z = None, bulge = None \<rparr>,
                   rightTop = \<lparr> x = MAX_BORDER_DISTANCE - distanceRight,
                                y = MAX_BORDER_DISTANCE - distanceTop,
                                z = None, bulge = None \<rparr> \<rparr>))))))"

section \<open>The entry point\<close>

record ShapeData =
  area :: number
  perimeter :: number

record FileData =
  area :: number
  perimeter :: number
  unknownEntities :: UnknownEntities
  errors :: "string list"
  splineExists :: bool
  shapes :: "ShapeData list"
  width :: number
  height :: number

text \<open>
  \<open>getFileData\<close> reads \<open>area\<close> and \<open>perimeter\<close> only from shapes that passed the filter,
  where both are set (lemma \<open>measureShapes_set\<close>), so \<open>toNumber\<close> of them is the number
  they hold.
\<close>

definition cannotDefineMain :: string where
  "cannotDefineMain = ''Can not define main shape''"

definition skippedCheck :: string where
  "skippedCheck = ''Skipped \"all shapes in main shape\" check''"

text \<open>
  \<open>getFileData\<close> from the point where \<open>findShapes\<close> has returned: the filter, the main
  shape, the sums and the bounds. \<open>Inl\<close> is an exception that leaves \<open>getFileData\<close>.
\<close>

definition measureFile :: "'p Kernel \<Rightarrow> (nat \<Rightarrow> int) \<Rightarrow> 'p FindShapesResult \<Rightarrow> error + FileData" where
  "measureFile K now findShapesResult =
     (let fileData =
            \<lparr> area = Num 0, perimeter = Num 0,
              unknownEntities = FindShapesResult.unknownEntities findShapesResult,
              errors = [],
              splineExists =
                (case FindShapesResult.unknownEntities findShapesResult (OtherType ''SPLINE'') of
                   None \<Rightarrow> False | Some n \<Rightarrow> n \<noteq> 0),
              shapes = [], width = Num 0, height = Num 0 \<rparr>
      in case measureShapes K 0 (FindShapesResult.shapes findShapesResult) of
           Inl e \<Rightarrow> Inl e
         | Inr (shs, errs) \<Rightarrow>
             (case findMainShape K now shs of
                Inl e \<Rightarrow> Inr (fileData\<lparr>errors := errs @ [cannotDefineMain]\<rparr>)
              | Inr (None, _) \<Rightarrow> Inr (fileData\<lparr>errors := errs @ [cannotDefineMain]\<rparr>)
              | Inr (Some mainShape, shs') \<Rightarrow>
                  (let fileData = fileData\<lparr>
                         FileData.area := toNumber (Shape.area mainShape),
                         errors := errs @ (if skippedIncludesCheck mainShape then [skippedCheck] else []),
                         FileData.perimeter := foldl (\<lambda>acc val. acc + toNumber (Shape.perimeter val)) (Num 0) shs',
                         FileData.shapes :=
                           map (\<lambda>sh. \<lparr> ShapeData.area = toNumber (Shape.area sh),
                                        ShapeData.perimeter = toNumber (Shape.perimeter sh) \<rparr>) shs' \<rparr>
                   in case findBounds K mainShape of
                        Inl e \<Rightarrow> Inl e
                      | Inr None \<Rightarrow> Inl undefinedRead
                      | Inr (Some bounds) \<Rightarrow>
                          Inr (fileData\<lparr>
                                 width := x (rightTop bounds) - x (leftBottom bounds),
                                 height := y (rightTop bounds) - y (leftBottom bounds) \<rparr>))))"

definition getFileData :: "Env \<Rightarrow> 'p Kernel \<Rightarrow> (nat \<Rightarrow> int) \<Rightarrow> string \<Rightarrow> error + FileData" where
  "getFileData env K now filePath =
     (case readDxf env filePath of
        Inl e \<Rightarrow> Inl e
      | Inr data \<Rightarrow>
          (case findEdges data of
             Inl e \<Rightarrow> Inl e
           | Inr ents \<Rightarrow>
               (case findShapes ents of
                  Inl e \<Rightarrow> Inl e
                | Inr findShapesResult \<Rightarrow> measureFile K now findShapesResult)))"

text \<open>Every shape that passes the filter carries its polygon, area and perimeter.\<close>

lemma measureShape_set:
  "measureShape K index sh = Inr (Some s, errs) \<Longrightarrow>
   Shape.area s \<noteq> None \<and> Shape.perimeter s \<noteq> None \<and> polygon s \<noteq> None"
  by (auto simp: measureShape_def Let_def split: sum.splits)

lemma measureShapes_set:
  "measureShapes K index shs = Inr (kept, errs) \<Longrightarrow> s \<in> set kept \<Longrightarrow>
   Shape.area s \<noteq> None \<and> Shape.perimeter s \<noteq> None \<and> polygon s \<noteq> None"
proof (induction shs arbitrary: index kept errs)
  case Nil
  then show ?case by simp
next
  case (Cons sh shs)
  from Cons.prems(1) obtain k e1 ks e2 where
    m: "measureShape K index sh = Inr (k, e1)" and ms: "measureShapes K (Suc index) shs = Inr (ks, e2)"
    and kept: "kept = (case k of None \<Rightarrow> ks | Some s \<Rightarrow> s # ks)"
    by (auto split: sum.splits prod.splits)
  show ?case
  proof (cases "s \<in> set ks")
    case True
    from Cons.IH [OF ms True] show ?thesis .
  next
    case False
    with Cons.prems(2) kept have "k = Some s" by (cases k) auto
    with m measureShape_set show ?thesis by blast
  qed
qed

section \<open>Perimeter contributions\<close>

text \<open>
  The included angle of an arc as the specification words it: the difference of the
  angles, plus \<open>2\<pi>\<close> when negative, replaced by \<open>2\<pi>\<close> minus itself when clockwise.
\<close>

definition spec_arcAngle :: "real \<Rightarrow> real \<Rightarrow> bool \<Rightarrow> real" where
  "spec_arcAngle startA endA cw =
     (let d = endA - startA;
          n = (if d < 0 then d + 2 * pi else d)
      in if cw then 2 * pi - n else n)"

lemma spec_arcAngle_range:
  "- (2 * pi) < endA - startA \<Longrightarrow> endA - startA < 2 * pi \<Longrightarrow>
   0 \<le> spec_arcAngle startA endA False \<and> spec_arcAngle startA endA False < 2 * pi"
  by (simp add: spec_arcAngle_def Let_def)

text \<open>
  C5. An arc contributes its included angle times its radius; with \<open>startAngle = 0\<close> and
  \<open>endAngle = \<pi>\<close> that is \<open>\<pi> r\<close> whatever the orientation, and with \<open>startAngle = 0\<close>,
  \<open>endAngle = \<pi>/2\<close>, clockwise, it is \<open>(2\<pi> - \<pi>/2) r\<close>. A line contributes the Euclidean
  distance of its two edges and a circle \<open>2\<pi> r\<close>. (Where the radius or an angle is absent
  the contribution is NaN.)
\<close>

theorem calcEntityLength_formulas:
  assumes "type arc = ARC" and "type line = LINE"
    and "edges line = Some (Some (numeric p), Some (numeric q))"
    and "type circle = CIRCLE"
  shows "calcEntityLength
           (arc\<lparr>radius := Some (Num r), startAngle := Some (Num s), endAngle := Some (Num e)\<rparr>)
           = Inr (Num (spec_arcAngle s e (clockwise arc) * r))
       \<and> calcEntityLength
           (arc\<lparr>radius := Some (Num r), startAngle := Some (Num 0), endAngle := Some (Num pi)\<rparr>)
           = Inr (Num (pi * r))
       \<and> calcEntityLength
           (arc\<lparr>radius := Some (Num r), startAngle := Some (Num 0), endAngle := Some (Num (pi / 2)),
                 clockwise := True\<rparr>)
           = Inr (Num ((2 * pi - pi / 2) * r))
       \<and> calcEntityLength line = Inr (Num (sqrt ((x p - x q)\<^sup>2 + (y p - y q)\<^sup>2)))
       \<and> calcEntityLength (circle\<lparr>radius := Some (Num rc)\<rparr>) = Inr (Num (2 * pi * rc))
       \<and> calcEntityLength (arc\<lparr>radius := None\<rparr>) = Inr NaN
       \<and> calcEntityLength (arc\<lparr>startAngle := None\<rparr>) = Inr NaN
       \<and> calcEntityLength (arc\<lparr>endAngle := None\<rparr>) = Inr NaN
       \<and> calcEntityLength (circle\<lparr>radius := None\<rparr>) = Inr NaN"
  using assms
  by (simp add: calcEntityLength_def spec_arcAngle_def lineLength_def Let_def add.commute
        toNumber_def Math_PI_def Math_sqrt_def Math_pow_def numeric_def)

theorem calcEntityLength_formulas_witness:
  "calcEntityLength
     ((blankEntity ARC)\<lparr>radius := Some (Num 2), startAngle := Some (Num 1), endAngle := Some (Num 0)\<rparr>)
     = Inr (Num ((2 * pi - 1) * 2))
   \<and> calcEntityLength ((blankEntity LINE)\<lparr>edges :=
         Some (Some (numeric \<lparr>x = 0, y = 0, z = None, bulge = None\<rparr>),
               Some (numeric \<lparr>x = 3, y = 4, z = None, bulge = None\<rparr>))\<rparr>) = Inr (Num 5)
   \<and> calcEntityLength ((blankEntity CIRCLE)\<lparr>radius := Some (Num 1)\<rparr>) = Inr (Num (2 * pi))"
  using calcEntityLength_formulas
    [where arc = "blankEntity ARC"
       and line = "(blankEntity LINE)\<lparr>edges :=
           Some (Some (numeric \<lparr>x = 0, y = 0, z = None, bulge = None\<rparr>),
                 Some (numeric \<lparr>x = 3, y = 4, z = None, bulge = None\<rparr>))\<rparr>"
       and p = "\<lparr>x = 0, y = 0, z = None, bulge = None\<rparr>"
       and q = "\<lparr>x = 3, y = 4, z = None, bulge = None\<rparr>"
       and circle = "blankEntity CIRCLE" and r = 2 and s = 1 and e = 0 and rc = 1]
  by (simp add: blankEntity_def spec_arcAngle_def)

section \<open>From the stages to the entry point\<close>

lemma getFileData_stages:
  "readDxf env filePath = Inr data \<Longrightarrow> findEdges data = Inr ents \<Longrightarrow> findShapes ents = Inr r \<Longrightarrow>
   getFileData env K now filePath = measureFile K now r"
  by (simp add: getFileData_def)

lemma findBounds_value:
  assumes "polygon sh = Some p"
    and "distanceTo K p topSegment = Inr distanceTop"
    and "distanceTo K p bottomSegment = Inr distanceBottom"
    and "distanceTo K p leftSegment = Inr distanceLeft"
    and "distanceTo K p rightSegment = Inr distanceRight"
  shows "findBounds K sh = Inr (Some
           \<lparr> leftBottom = \<lparr> x = distanceLeft - Num 10000, y = distanceBottom - Num 10000,
                            z = None, bulge = None \<rparr>,
             rightTop = \<lparr> x = Num 10000 - distanceRight, y = Num 10000 - distanceTop,
                          z = None, bulge = None \<rparr> \<rparr>)"
  using assms by (simp add: findBounds_def MAX_BORDER_DISTANCE_def)

lemma measureFile_bounds:
  assumes "measureShapes K 0 (FindShapesResult.shapes r) = Inr (shs, errs)"
    and "findMainShape K now shs = Inr (Some mainShape, shs')"
    and "findBounds K mainShape = Inr (Some bounds)"
  shows "\<exists>fd. measureFile K now r = Inr fd
           \<and> width fd = x (rightTop bounds) - x (leftBottom bounds)
           \<and> height fd = y (rightTop bounds) - y (leftBottom bounds)
           \<and> FileData.area fd = toNumber (Shape.area mainShape)
           \<and> FileData.perimeter fd = foldl (\<lambda>acc val. acc + toNumber (Shape.perimeter val)) (Num 0) shs'
           \<and> errors fd = errs @ (if skippedIncludesCheck mainShape then [skippedCheck] else [])"
  using assms by (simp add: measureFile_def Let_def)

text \<open>
  C8. For a main shape with a polygon the estimator returns \<open>left = distanceLeft - L\<close>,
  \<open>bottom = distanceBottom - L\<close>, \<open>right = L - distanceRight\<close>, \<open>top = L - distanceTop\<close> with
  \<open>L = 10000\<close>, each distance being the kernel's distance from the polygon to the far
  probe segment on that side, and \<open>getFileData\<close> reports \<open>right - left\<close> as width and
  \<open>top - bottom\<close> as height.
\<close>

theorem bounds_formulas:
  assumes "readDxf env filePath = Inr data" and "findEdges data = Inr ents"
    and "findShapes ents = Inr r"
    and "measureShapes K 0 (FindShapesResult.shapes r) = Inr (shs, errs)"
    and "findMainShape K now shs = Inr (Some mainShape, shs')"
    and "polygon mainShape = Some p"
    and "distanceTo K p (Segment (Num (- 10000), Num 10000) (Num 10000, Num 10000))
           = Inr distanceTop"
    and "distanceTo K p (Segment (Num (- 10000), Num (- 10000)) (Num 10000, Num (- 10000)))
           = Inr distanceBottom"
    and "distanceTo K p (Segment (Num (- 10000), Num (- 10000)) (Num (- 10000), Num 10000))
           = Inr distanceLeft"
    and "distanceTo K p (Segment (Num 10000, Num (- 10000)) (Num 10000, Num 10000))
           = Inr distanceRight"
  shows "\<exists>bounds fd.
           findBounds K mainShape = Inr (Some bounds)
         \<and> x (leftBottom bounds) = distanceLeft - Num 10000
         \<and> y (leftBottom bounds) = distanceBottom - Num 10000
         \<and> x (rightTop bounds) = Num 10000 - distanceRight
         \<and> y (rightTop bounds) = Num 10000 - distanceTop
         \<and> getFileData env K now filePath = Inr fd
         \<and> width fd = x (rightTop bounds) - x (leftBottom bounds)
         \<and> height fd = y (rightTop bounds) - y (leftBottom bounds)"
proof -
  have b: "findBounds K mainShape = Inr (Some
           \<lparr> leftBottom = \<lparr> x = distanceLeft - Num 10000, y = distanceBottom - Num 10000,
                            z = None, bulge = None \<rparr>,
             rightTop = \<lparr> x = Num 10000 - distanceRight, y = Num 10000 - distanceTop,
                          z = None, bulge = None \<rparr> \<rparr>)"
    using assms(6-10)
    by (intro findBounds_value)
       (simp_all add: topSegment_def bottomSegment_def leftSegment_def rightSegment_def
          MAX_BORDER_DISTANCE_def)
  from measureFile_bounds [OF assms(4) assms(5) b] getFileData_stages [OF assms(1-3), of K now]
  show ?thesis using b by auto
qed



section \<open>Sample collaborators and inputs\<close>

text \<open>
  A small kernel whose polygon handle is the face list itself, a file system holding one
  parsable file, and a circle drawing: the inputs at which the theorems are instantiated.
  \<open>faceIntegral\<close> is twice the signed area a face sweeps (arcs and faces with a NaN or
  absent parameter are not used by the samples and count 0).
\<close>

fun faceIntegral :: "Face \<Rightarrow> real" where
  "faceIntegral (Segment (Num x1, Num y1) (Num x2, Num y2)) = x1 * y2 - x2 * y1"
| "faceIntegral (CircleArc c (Some (Num r))) = 2 * pi * r\<^sup>2"
| "faceIntegral _ = 0"

definition enclosedArea :: "Face list \<Rightarrow> real" where
  "enclosedArea fs = \<bar>sum_list (map faceIntegral fs)\<bar> / 2"

definition listKernel :: "(Face list \<Rightarrow> Face list \<Rightarrow> bool) \<Rightarrow> (Face \<Rightarrow> real) \<Rightarrow> Face list Kernel" where
  "listKernel inside far =
     \<lparr> newPolygon = Inr, isValid = (\<lambda>_. Inr True), area = (\<lambda>fs. Inr (Num (enclosedArea fs))),
       contains = (\<lambda>p q. Inr (inside p q)), distanceTo = (\<lambda>_ probe. Inr (Num (far probe))) \<rparr>"

definition oneFile :: "DxfData \<Rightarrow> Env" where
  "oneFile data = \<lparr> readFile = (\<lambda>_. Inr ''0''), parseSync = (\<lambda>_. Inr data) \<rparr>"

definition probeDistance :: "Face \<Rightarrow> real" where
  "probeDistance probe =
     (if probe = topSegment then 9999 else if probe = bottomSegment then 9998
      else if probe = leftSegment then 9997 else 9996)"

definition circleEntity :: "real \<Rightarrow> real \<Rightarrow> real \<Rightarrow> Entity" where
  "circleEntity cx cy r =
     (blankEntity CIRCLE)\<lparr>center := Some \<lparr> x = Num cx, y = Num cy, z = None, bulge = None \<rparr>,
                          radius := Some (Num r)\<rparr>"

definition circleEdge :: "real \<Rightarrow> real \<Rightarrow> real \<Rightarrow> number Vertice" where
  "circleEdge cx cy r = \<lparr> x = Num (cx + r), y = Num cy, z = None, bulge = None \<rparr>"

definition normalCircle :: "real \<Rightarrow> real \<Rightarrow> real \<Rightarrow> Entity" where
  "normalCircle cx cy r =
     (circleEntity cx cy r)\<lparr>edges := Some (Some (circleEdge cx cy r), Some (circleEdge cx cy r))\<rparr>"

definition circleShape :: "real \<Rightarrow> real \<Rightarrow> real \<Rightarrow> Face list Shape" where
  "circleShape cx cy r =
     \<lparr> entities = [normalCircle cx cy r], start = Some (circleEdge cx cy r),
       end' = Some (circleEdge cx cy r), perimeter = None, area = None,
       closed = True, single = True, polygon = None, skippedIncludesCheck = False \<rparr>"

definition measuredCircle :: "real \<Rightarrow> real \<Rightarrow> real \<Rightarrow> Face list Shape" where
  "measuredCircle cx cy r =
     (circleShape cx cy r)\<lparr>polygon := Some [CircleArc (Num cx, Num cy) (Some (Num r))],
                            Shape.area := Some (Num (pi * r\<^sup>2)),
                            Shape.perimeter := Some (Num (2 * pi * r))\<rparr>"

lemma probeDistance_values:
  "probeDistance topSegment = 9999" "probeDistance bottomSegment = 9998"
  "probeDistance leftSegment = 9997" "probeDistance rightSegment = 9996"
  by (simp_all add: probeDistance_def topSegment_def bottomSegment_def leftSegment_def
        rightSegment_def MAX_BORDER_DISTANCE_def)

lemma readDxf_oneFile: "readDxf (oneFile data) filePath = Inr (Some data)"
  by (simp add: readDxf_def oneFile_def)

lemma findEdge_circle: "findEdge (circleEntity cx cy r) = Inr (normalCircle cx cy r)"
  by (simp add: findEdge_def circleEntity_def normalCircle_def circleEdge_def blankEntity_def
        Let_def toNumber_def)

lemma stitch_circle:
  "stitch (normalCircle cx cy r # pool)
     = (case stitch pool of Inl err \<Rightarrow> Inl err | Inr shs \<Rightarrow> Inr (circleShape cx cy r # shs))"
  by (simp add: normalCircle_def circleEntity_def blankEntity_def transofrmEntity_def
        pointsAreEqual_def EQUAL_TRESHOLD_def seedShape_def circleShape_def circleEdge_def
        split: sum.split)

lemma normalCircle_edges:
  "edges (normalCircle cx cy r) = Some (Some (circleEdge cx cy r), Some (circleEdge cx cy r))"
  by (simp add: normalCircle_def)

lemma measureShape_circle:
  "measureShape (listKernel inside far) index (circleShape cx cy r)
     = Inr (Some (measuredCircle cx cy r), [])"
  by (simp add: measureShape_def createPolygon_def circleShape_def measuredCircle_def
        normalCircle_def circleEntity_def blankEntity_def face_def toPoint_def listKernel_def
        enclosedArea_def calcEntityLength_def power2_eq_square toNumber_def Math_PI_def)

lemma two_circles_edges:
  "findEdges (Some [circleEntity 0 0 1, circleEntity 5 0 1])
     = Inr [normalCircle 0 0 1, normalCircle 5 0 1]"
  by (simp add: findEdges_def findEdge_circle)

lemma two_circles_shapes:
  "findShapes [normalCircle 0 0 1, normalCircle 5 0 1]
     = Inr \<lparr> FindShapesResult.shapes = [circleShape 0 0 1, circleShape 5 0 1],
             FindShapesResult.unknownEntities = Map.empty \<rparr>"
  by (simp add: findShapes_def withEdges_def normalCircle_edges stitch_circle
        del: stitch.simps(2))

lemma one_circle_stages:
  "findEdges (Some [circleEntity 0 0 1]) = Inr [normalCircle 0 0 1]"
  "findShapes [normalCircle 0 0 1]
     = Inr \<lparr> FindShapesResult.shapes = [circleShape 0 0 1],
             FindShapesResult.unknownEntities = Map.empty \<rparr>"
  "measureShapes (listKernel inside far) 0 [circleShape 0 0 1] = Inr ([measuredCircle 0 0 1], [])"
  by (simp_all add: findEdges_def findEdge_circle findShapes_def withEdges_def normalCircle_edges
        stitch_circle measureShape_circle del: stitch.simps(2))

theorem bounds_formulas_witness:
  "\<exists>fd. getFileData (oneFile [circleEntity 0 0 1]) (listKernel (\<lambda>_ _. True) probeDistance)
           (\<lambda>_. 0) ''a.dxf'' = Inr fd
       \<and> width fd = Num 7 \<and> height fd = Num 3"
proof -
  let ?K = "listKernel (\<lambda>_ _. True) probeDistance"
  have m: "findMainShape ?K (\<lambda>_. 0) [measuredCircle 0 0 1]
             = Inr (Some (measuredCircle 0 0 1), [measuredCircle 0 0 1])"
    by (simp add: findMainShape_def)
  have p: "polygon (measuredCircle 0 0 1) = Some [CircleArc (Num 0, Num 0) (Some (Num 1))]"
    by (simp add: measuredCircle_def)
  have d: "distanceTo ?K [CircleArc (Num 0, Num 0) (Some (Num 1))]
             (Segment (Num (- 10000), Num 10000) (Num 10000, Num 10000)) = Inr (Num 9999)"
    "distanceTo ?K [CircleArc (Num 0, Num 0) (Some (Num 1))]
       (Segment (Num (- 10000), Num (- 10000)) (Num 10000, Num (- 10000))) = Inr (Num 9998)"
    "distanceTo ?K [CircleArc (Num 0, Num 0) (Some (Num 1))]
       (Segment (Num (- 10000), Num (- 10000)) (Num (- 10000), Num 10000)) = Inr (Num 9997)"
    "distanceTo ?K [CircleArc (Num 0, Num 0) (Some (Num 1))]
       (Segment (Num 10000, Num (- 10000)) (Num 10000, Num 10000)) = Inr (Num 9996)"
    using probeDistance_values
    by (simp_all add: listKernel_def topSegment_def bottomSegment_def leftSegment_def
          rightSegment_def MAX_BORDER_DISTANCE_def)
  have ms: "measureShapes ?K 0 (FindShapesResult.shapes
               \<lparr> FindShapesResult.shapes = [circleShape 0 0 1],
                 FindShapesResult.unknownEntities = Map.empty \<rparr>) = Inr ([measuredCircle 0 0 1], [])"
    by (simp add: measureShape_circle)
  from bounds_formulas [OF readDxf_oneFile [of _ "''a.dxf''"] one_circle_stages(1)
      one_circle_stages(2) ms m p d]
  show ?thesis by auto
qed

section \<open>Failures of the entry point\<close>

definition unparsable :: Env where
  "unparsable = \<lparr> readFile = (\<lambda>_. Inr ''not a drawing''),
                  parseSync = (\<lambda>_. Inl (Error ''unexpected end of input'')) \<rparr>"

text \<open>
  C2. \<open>getFileData\<close> is claimed never to let an exception escape, unparsable input
  included. On a file the parser rejects, \<open>readDxf\<close> returns \<open>null\<close> and \<open>findEdges\<close> reads
  \<open>data.entities\<close> of it: the TypeError leaves \<open>getFileData\<close>.
\<close>

theorem getFileData_unparsable_raises:
  "getFileData unparsable K now filePath = Inl undefinedRead"
  by (simp add: getFileData_def readDxf_def unparsable_def findEdges_def)

text \<open>
  C10. When no shape survives the measuring filter (as for an input with no entity that
  has edges), \<open>getFileData\<close> returns a record whose errors contain the
  cannot-define-main-shape message and whose area, perimeter, width and height are 0.
\<close>

theorem no_shape_survives:
  assumes "readDxf env filePath = Inr data" and "findEdges data = Inr ents"
    and "findShapes ents = Inr r"
    and "measureShapes K 0 (FindShapesResult.shapes r) = Inr ([], errs)"
  shows "\<exists>fd. getFileData env K now filePath = Inr fd
           \<and> cannotDefineMain \<in> set (errors fd)
           \<and> FileData.area fd = Num 0 \<and> FileData.perimeter fd = Num 0
           \<and> width fd = Num 0 \<and> height fd = Num 0"
  using assms by (simp add: getFileData_def measureFile_def findMainShape_def Let_def)

definition splineEntity :: Entity where
  "splineEntity = blankEntity (OtherType ''SPLINE'')"

theorem no_shape_survives_witness:
  "\<exists>fd. getFileData (oneFile [splineEntity]) (listKernel (\<lambda>_ _. True) probeDistance) (\<lambda>_. 0)
           ''a.dxf'' = Inr fd
       \<and> cannotDefineMain \<in> set (errors fd)
       \<and> FileData.area fd = Num 0 \<and> FileData.perimeter fd = Num 0
       \<and> width fd = Num 0 \<and> height fd = Num 0"
proof -
  have e: "findEdges (Some [splineEntity]) = Inr [splineEntity]"
    by (simp add: findEdges_def findEdge_def splineEntity_def blankEntity_def)
  have s: "findShapes [splineEntity]
             = Inr \<lparr> FindShapesResult.shapes = ([] :: Face list Shape list),
                     FindShapesResult.unknownEntities = [OtherType ''SPLINE'' \<mapsto> 1] \<rparr>"
    by (simp add: findShapes_def withEdges_def splineEntity_def blankEntity_def)
  show ?thesis
    using no_shape_survives [OF readDxf_oneFile [of _ "''a.dxf''"] e s, of "listKernel (\<lambda>_ _. True) probeDistance" "[]"]
    by simp
qed

section \<open>Resolving the main shape\<close>

lemma probeMain_no_relation:
  "\<forall>s \<in> set others. polygonContains K shape0 s = Inr False \<and> polygonContains K s shape0 = Inr False \<Longrightarrow>
   probeMain K shape0 i others = Inr (- 1)"
  by (induction others arbitrary: i) simp_all

lemma splice1_last: "xs \<noteq> [] \<Longrightarrow> splice1 (- 1) xs = (Some (last xs), butlast xs)"
proof -
  assume ne: "xs \<noteq> []"
  then have k: "nat (max (int (length xs) + - 1) 0) = length xs - 1"
    by (cases xs) auto
  have lt: "length xs - 1 < length xs" using ne by simp
  have t: "take (length xs - 1) xs @ drop (Suc (length xs - 1)) xs = butlast xs"
    using ne by (simp add: butlast_conv_take)
  have l: "xs ! (length xs - 1) = last xs" using ne by (simp add: last_conv_nth)
  have "splice1 (- 1) xs
          = (if length xs - 1 < length xs then Some (xs ! (length xs - 1)) else None,
             take (length xs - 1) xs @ drop (Suc (length xs - 1)) xs)"
    unfolding splice1_def Let_def using k by simp
  with lt t l show ?thesis by simp
qed

lemma findMainShape_no_relation:
  assumes "2 \<le> length shs"
    and "\<forall>i \<in> {1..<length shs}. polygonContains K (shs ! 0) (shs ! i) = Inr False
                               \<and> polygonContains K (shs ! i) (shs ! 0) = Inr False"
  shows "findMainShape K now shs = Inl notAllInside"
proof -
  from assms(1) obtain shape0 shape1 others where shs: "shs = shape0 # shape1 # others"
    by (cases shs; cases "tl shs") auto
  have rel: "\<forall>s \<in> set (shape1 # others). polygonContains K shape0 s = Inr False
                                       \<and> polygonContains K s shape0 = Inr False"
  proof
    fix s assume "s \<in> set (shape1 # others)"
    then obtain j where j: "j < length (shape1 # others)" "s = (shape1 # others) ! j"
      by (metis in_set_conv_nth)
    then have "Suc j \<in> {1..<length shs}" "shs ! Suc j = s" "shs ! 0 = shape0"
      by (simp_all add: shs)
    with assms(2) show "polygonContains K shape0 s = Inr False \<and> polygonContains K s shape0 = Inr False"
      by metis
  qed
  have p: "probeMain K shape0 1 (shape1 # others) = Inr (- 1)"
    by (rule probeMain_no_relation [OF rel])
  have sp: "splice1 (- 1) shs = (Some (last (shape1 # others)), shape0 # butlast (shape1 # others))"
    using splice1_last [of shs] by (simp add: shs)
  have "last (shape1 # others) \<in> set (shape1 # others)" by (rule last_in_set) simp
  with rel have c: "polygonContains K (last (shape1 # others)) shape0 = Inr False" by blast
  have "checkInside K now (last (shape1 # others)) 1 (shape0 # butlast (shape1 # others)) = Inl notAllInside"
    using c by simp
  with p sp show ?thesis
    by (simp add: findMainShape_def shs notAllInside_def CHECK_TIMEOUT_MESSAGE_def del: probeMain.simps checkInside.simps splice1_def)
qed

text \<open>
  C1. With at least two surviving shapes, none of which contains shape 0 or is contained
  in it, \<open>findMainShape\<close> throws and \<open>getFileData\<close> returns the record with the
  cannot-define-main-shape message appended to the errors and with area, width and
  height 0.
\<close>

theorem main_shape_indeterminate:
  assumes "readDxf env filePath = Inr data" and "findEdges data = Inr ents"
    and "findShapes ents = Inr r"
    and "measureShapes K 0 (FindShapesResult.shapes r) = Inr (shs, errs)"
    and "2 \<le> length shs"
    and "\<forall>i \<in> {1..<length shs}. polygonContains K (shs ! 0) (shs ! i) = Inr False
                               \<and> polygonContains K (shs ! i) (shs ! 0) = Inr False"
  shows "findMainShape K now shs = Inl (Error ''Not all shapes inside main shape'')
       \<and> (\<exists>fd. getFileData env K now filePath = Inr fd
             \<and> errors fd = errs @ [''Can not define main shape'']
             \<and> FileData.area fd = Num 0 \<and> width fd = Num 0 \<and> height fd = Num 0)"
proof -
  have f: "findMainShape K now shs = Inl notAllInside"
    by (rule findMainShape_no_relation [OF assms(5,6)])
  then show ?thesis
    using assms(1-4)
    by (simp add: getFileData_def measureFile_def Let_def notAllInside_def cannotDefineMain_def)
qed


lemma two_circles_measured_result:
  "measureShapes (listKernel inside far) 0 (FindShapesResult.shapes
     \<lparr> FindShapesResult.shapes = [circleShape 0 0 1, circleShape 5 0 1],
       FindShapesResult.unknownEntities = Map.empty \<rparr>)
     = Inr ([measuredCircle 0 0 1, measuredCircle 5 0 1], [])"
  by (simp add: measureShape_circle)

lemma measuredCircle_polygon:
  "polygon (measuredCircle cx cy r) = Some [CircleArc (Num cx, Num cy) (Some (Num r))]"
  by (simp add: measuredCircle_def)

theorem main_shape_indeterminate_witness:
  "\<exists>fd. getFileData (oneFile [circleEntity 0 0 1, circleEntity 5 0 1])
           (listKernel (\<lambda>_ _. False) probeDistance) (\<lambda>_. 0) ''a.dxf'' = Inr fd
       \<and> errors fd = [''Can not define main shape'']
       \<and> FileData.area fd = Num 0 \<and> width fd = Num 0 \<and> height fd = Num 0"
proof -
  let ?K = "listKernel (\<lambda>_ _. False) probeDistance"
  let ?shs = "[measuredCircle 0 0 1, measuredCircle 5 0 1]"
  have len: "2 \<le> length ?shs" by simp
  have rel: "\<forall>i \<in> {1..<length ?shs}. polygonContains ?K (?shs ! 0) (?shs ! i) = Inr False
                                  \<and> polygonContains ?K (?shs ! i) (?shs ! 0) = Inr False"
    by (simp add: polygonContains_def measuredCircle_polygon listKernel_def)
  from main_shape_indeterminate [OF readDxf_oneFile [of _ "''a.dxf''"] two_circles_edges
      two_circles_shapes two_circles_measured_result len rel]
  show ?thesis by simp
qed

lemma checkInside_timeout:
  "j < length rest \<Longrightarrow> \<forall>i \<le> j. polygonContains K mainShape (rest ! i) = Inr True \<Longrightarrow>
   now (k + j) - now 0 > MAIN_INCLUDES_CHECK_TIMEOUT \<Longrightarrow>
   checkInside K now mainShape k rest = Inl (Error CHECK_TIMEOUT_MESSAGE)"
proof (induction rest arbitrary: j k)
  case Nil
  then show ?case by simp
next
  case (Cons sh rest)
  from Cons.prems(2) have c0: "polygonContains K mainShape sh = Inr True" by force
  show ?case
  proof (cases "now k - now 0 > MAIN_INCLUDES_CHECK_TIMEOUT")
    case True
    with c0 show ?thesis by simp
  next
    case False
    with Cons.prems(3) have "j \<noteq> 0" by (cases j) auto
    then obtain j' where j: "j = Suc j'" by (cases j) auto
    have "checkInside K now mainShape (Suc k) rest = Inl (Error CHECK_TIMEOUT_MESSAGE)"
    proof (rule Cons.IH [of j'])
      show "j' < length rest" using Cons.prems(1) j by simp
      show "\<forall>i \<le> j'. polygonContains K mainShape (rest ! i) = Inr True"
        using Cons.prems(2) j by force
      show "now (Suc k + j') - now 0 > MAIN_INCLUDES_CHECK_TIMEOUT"
        using Cons.prems(3) j by simp
    qed
    with c0 False show ?thesis by simp
  qed
qed

text \<open>
  C7. When the clock reading taken after a containment test exceeds the start by more
  than the budget, and every shape tested up to there is inside the main shape,
  \<open>findMainShape\<close> returns the main shape with \<open>skippedIncludesCheck\<close> set, and
  \<open>getFileData\<close> still returns the area of the main shape, the summed perimeter, the
  width and the height; the only message added is the one of the skipped check.
\<close>

theorem timeout_is_not_a_failure:
  assumes "readDxf env filePath = Inr data" and "findEdges data = Inr ents"
    and "findShapes ents = Inr r"
    and "measureShapes K 0 (FindShapesResult.shapes r) = Inr (shape0 # shape1 # others, errs)"
    and "probeMain K shape0 1 (shape1 # others) = Inr mainShapeIndex"
    and "splice1 mainShapeIndex (shape0 # shape1 # others) = (Some mainShape, rest)"
    and "j < length rest"
    and "\<forall>i \<le> j. polygonContains K mainShape (rest ! i) = Inr True"
    and "now (Suc j) - now 0 > 1000"
    and "findBounds K (mainShape\<lparr>skippedIncludesCheck := True\<rparr>) = Inr (Some bounds)"
  shows "findMainShape K now (shape0 # shape1 # others)
           = Inr (Some (mainShape\<lparr>skippedIncludesCheck := True\<rparr>),
                  mainShape\<lparr>skippedIncludesCheck := True\<rparr> # rest)
       \<and> (\<exists>fd. getFileData env K now filePath = Inr fd
             \<and> errors fd = errs @ [''Skipped \"all shapes in main shape\" check'']
             \<and> FileData.area fd = toNumber (Shape.area mainShape)
             \<and> FileData.perimeter fd
                 = foldl (\<lambda>acc val. acc + toNumber (Shape.perimeter val)) (Num 0) (mainShape # rest)
             \<and> width fd = x (rightTop bounds) - x (leftBottom bounds)
             \<and> height fd = y (rightTop bounds) - y (leftBottom bounds))"
proof -
  have t: "checkInside K now mainShape 1 rest = Inl (Error CHECK_TIMEOUT_MESSAGE)"
    using assms(7-9) by (intro checkInside_timeout [of j]) (simp_all add: MAIN_INCLUDES_CHECK_TIMEOUT_def)
  have f: "findMainShape K now (shape0 # shape1 # others)
           = Inr (Some (mainShape\<lparr>skippedIncludesCheck := True\<rparr>),
                  mainShape\<lparr>skippedIncludesCheck := True\<rparr> # rest)"
    using assms(5,6) t by (simp add: findMainShape_def del: probeMain.simps)
  from measureFile_bounds [OF assms(4) f assms(10)] getFileData_stages [OF assms(1-3), of K now]
  show ?thesis using f by (auto simp: skippedCheck_def)
qed


lemma findBounds_measuredCircle:
  "findBounds (listKernel inside probeDistance) ((measuredCircle cx cy r)\<lparr>skippedIncludesCheck := b\<rparr>)
     = Inr (Some \<lparr> leftBottom = \<lparr> x = Num (- 3), y = Num (- 2), z = None, bulge = None \<rparr>,
                   rightTop = \<lparr> x = Num 4, y = Num 1, z = None, bulge = None \<rparr> \<rparr>)"
  by (simp add: findBounds_def measuredCircle_def probeDistance_values listKernel_def
        MAX_BORDER_DISTANCE_def)

theorem timeout_is_not_a_failure_witness:
  "\<exists>fd. getFileData (oneFile [circleEntity 0 0 1, circleEntity 5 0 1])
           (listKernel (\<lambda>_ _. True) probeDistance) (\<lambda>k. 2000 * int k) ''a.dxf'' = Inr fd
       \<and> errors fd = [''Skipped \"all shapes in main shape\" check'']
       \<and> FileData.area fd = Num pi \<and> FileData.perimeter fd = Num (4 * pi)
       \<and> width fd = Num 7 \<and> height fd = Num 3"
proof -
  let ?K = "listKernel (\<lambda>_ _. True) probeDistance"
  let ?a = "measuredCircle 0 0 1" and ?b = "measuredCircle 5 0 1"
  have p: "probeMain ?K ?a 1 [?b] = Inr 0"
    by (simp add: polygonContains_def measuredCircle_polygon listKernel_def)
  have sp: "splice1 0 [?a, ?b] = (Some ?a, [?b])"
    by (simp add: splice1_def)
  have c: "\<forall>i \<le> (0::nat). polygonContains ?K ?a ([?b] ! i) = Inr True"
    by (simp add: polygonContains_def measuredCircle_polygon listKernel_def)
  have late: "(\<lambda>k. 2000 * int k) (Suc 0) - (\<lambda>k. 2000 * int k) 0 > 1000" by simp
  from timeout_is_not_a_failure [OF readDxf_oneFile [of _ "''a.dxf''"] two_circles_edges
      two_circles_shapes two_circles_measured_result p sp _ c late findBounds_measuredCircle]
  show ?thesis by (auto simp: measuredCircle_def toNumber_def)
qed

section \<open>Closed polylines as seeds\<close>





section \<open>Invariants of the stitcher\<close>

lemma grow_unfold:
  assumes "grow sh pool = Inr (sh', pool')"
  shows "(scan sh [] pool = Inr None \<and> pool' = pool
            \<and> (pointsAreEqual (start sh) (end' sh) = Inr True \<and> sh' = sh\<lparr>closed := True\<rparr>
               \<or> pointsAreEqual (start sh) (end' sh) = Inr False \<and> sh' = sh))
       \<or> (\<exists>sh1 pool1. scan sh [] pool = Inr (Some (sh1, pool1))
            \<and> (pointsAreEqual (start sh1) (end' sh1) = Inr True
                  \<and> sh' = sh1\<lparr>closed := True\<rparr> \<and> pool' = pool1
               \<or> pointsAreEqual (start sh1) (end' sh1) = Inr False
                  \<and> grow sh1 pool1 = Inr (sh', pool')))"
  using assms
  by (subst (asm) grow.simps) (auto split: sum.splits option.splits bool.splits)

text \<open>
  An invariant of the states (shape, pool) that every successful scan preserves holds
  of the state in which the inner loop stops; the emitted shape is that state's shape,
  marked closed exactly when its two ends are equal.
\<close>

lemma grow_invariant:
  assumes "grow sh pool = Inr (sh', pool')"
    and "P sh pool"
    and "\<And>s p s1 p1. P s p \<Longrightarrow> scan s [] p = Inr (Some (s1, p1)) \<Longrightarrow> P s1 p1"
  shows "\<exists>s. P s pool'
           \<and> (pointsAreEqual (start s) (end' s) = Inr True \<and> sh' = s\<lparr>closed := True\<rparr>
              \<or> pointsAreEqual (start s) (end' s) = Inr False \<and> sh' = s)"
  using assms(1,2)
proof (induction "length pool" arbitrary: sh pool rule: less_induct)
  case less
  from grow_unfold [OF less.prems(1)] show ?case
  proof (elim disjE exE conjE)
    assume "pool' = pool" "pointsAreEqual (start sh) (end' sh) = Inr True" "sh' = sh\<lparr>closed := True\<rparr>"
    with less.prems(2) show ?thesis by blast
  next
    assume "pool' = pool" "pointsAreEqual (start sh) (end' sh) = Inr False" "sh' = sh"
    with less.prems(2) show ?thesis by blast
  next
    fix sh1 pool1
    assume sc: "scan sh [] pool = Inr (Some (sh1, pool1))"
      and "pointsAreEqual (start sh1) (end' sh1) = Inr True" "sh' = sh1\<lparr>closed := True\<rparr>" "pool' = pool1"
    with assms(3) [OF less.prems(2) sc] show ?thesis by blast
  next
    fix sh1 pool1
    assume sc: "scan sh [] pool = Inr (Some (sh1, pool1))"
      and g: "grow sh1 pool1 = Inr (sh', pool')"
    from scan_shrinks [OF sc] have "length pool1 < length pool" by simp
    from less.hyps [OF this g assms(3) [OF less.prems(2) sc]] show ?thesis .
  qed
qed



lemma scan_subset:
  "scan sh before pool = Inr (Some (sh', pool')) \<Longrightarrow> set pool' \<subseteq> set before \<union> set pool"
proof (induction pool arbitrary: before)
  case Nil
  then show ?case by simp
next
  case (Cons entity rest)
  from Cons.prems Cons.IH [of "before @ [entity]"] show ?case
    by (auto split: option.splits sum.splits bool.splits)
qed


lemma grow_subset:
  assumes "grow sh pool = Inr (sh', pool')"
  shows "set pool' \<subseteq> set pool"
proof -
  have "\<exists>s. set pool' \<subseteq> set pool
           \<and> (pointsAreEqual (start s) (end' s) = Inr True \<and> sh' = s\<lparr>closed := True\<rparr>
              \<or> pointsAreEqual (start s) (end' s) = Inr False \<and> sh' = s)"
  proof (rule grow_invariant [of sh pool sh' pool' "\<lambda>s p. set p \<subseteq> set pool", OF assms])
    show "set pool \<subseteq> set pool" by simp
  next
    fix s p s1 p1
    assume "set p \<subseteq> set pool" "scan s [] p = Inr (Some (s1, p1))"
    with scan_subset [of s "[]" p s1 p1] show "set p1 \<subseteq> set pool" by auto
  qed
  then show ?thesis by blast
qed














section \<open>The unit square in any order\<close>

text \<open>The 24 orders of four elements, and that a list with the same elements is one of them.\<close>

definition perms4 :: "'a \<Rightarrow> 'a \<Rightarrow> 'a \<Rightarrow> 'a \<Rightarrow> 'a list list" where
  "perms4 a b c d =
     [[a, b, c, d], [a, b, d, c], [a, c, b, d], [a, c, d, b], [a, d, b, c], [a, d, c, b],
      [b, a, c, d], [b, a, d, c], [b, c, a, d], [b, c, d, a], [b, d, a, c], [b, d, c, a],
      [c, a, b, d], [c, a, d, b], [c, b, a, d], [c, b, d, a], [c, d, a, b], [c, d, b, a],
      [d, a, b, c], [d, a, c, b], [d, b, a, c], [d, b, c, a], [d, c, a, b], [d, c, b, a]]"

lemma mset_eq_2:
  assumes "mset xs = {#a, b#}"
  shows "xs = [a, b] \<or> xs = [b, a]"
proof -
  from assms have "xs \<noteq> []" by auto
  then obtain p ps where xs: "xs = p # ps" by (cases xs) auto
  with assms have "p \<in># {#a, b#}" by (metis list.set_intros(1) set_mset_mset)
  then consider "p = a" | "p = b" by auto
  then show ?thesis
  proof cases
    case 1
    with assms xs have "mset ps = {#b#}" by simp
    with 1 xs show ?thesis by simp
  next
    case 2
    with assms xs have "add_mset b (mset ps) = add_mset b {#a#}"
      by (simp add: add_mset_commute)
    then have "mset ps = {#a#}" by simp
    with 2 xs show ?thesis by simp
  qed
qed

lemma mset_eq_3:
  assumes "mset xs = {#a, b, c#}"
  shows "xs \<in> {[a, b, c], [a, c, b], [b, a, c], [b, c, a], [c, a, b], [c, b, a]}"
proof -
  from assms have "xs \<noteq> []" by auto
  then obtain p ps where xs: "xs = p # ps" by (cases xs) auto
  with assms have "p \<in># {#a, b, c#}" by (metis list.set_intros(1) set_mset_mset)
  then consider "p = a" | "p = b" | "p = c" by auto
  then show ?thesis
  proof cases
    case 1
    with assms xs have "mset ps = {#b, c#}" by simp
    from mset_eq_2 [OF this] 1 xs show ?thesis by auto
  next
    case 2
    with assms xs have "add_mset b (mset ps) = add_mset b {#a, c#}"
      by (simp add: add_mset_commute)
    then have "mset ps = {#a, c#}" by simp
    from mset_eq_2 [OF this] 2 xs show ?thesis by auto
  next
    case 3
    with assms xs have "add_mset c (mset ps) = add_mset c {#a, b#}"
      by (simp add: add_mset_commute)
    then have "mset ps = {#a, b#}" by simp
    from mset_eq_2 [OF this] 3 xs show ?thesis by auto
  qed
qed

lemma mset_eq_4:
  assumes "mset xs = mset [a, b, c, d]"
  shows "xs \<in> set (perms4 a b c d)"
proof -
  from assms have "xs \<noteq> []" by auto
  then obtain p ps where xs: "xs = p # ps" by (cases xs) auto
  with assms have "p \<in># mset [a, b, c, d]" by (metis list.set_intros(1) set_mset_mset)
  then consider "p = a" | "p = b" | "p = c" | "p = d" by auto
  then show ?thesis
  proof cases
    case 1
    with assms xs have "mset ps = {#b, c, d#}" by simp
    from mset_eq_3 [OF this] 1 xs show ?thesis by (auto simp: perms4_def)
  next
    case 2
    with assms xs have "add_mset b (mset ps) = add_mset b {#a, c, d#}"
      by (simp add: add_mset_commute)
    then have "mset ps = {#a, c, d#}" by simp
    from mset_eq_3 [OF this] 2 xs show ?thesis by (auto simp: perms4_def)
  next
    case 3
    with assms xs have "add_mset c (mset ps) = add_mset c {#a, b, d#}"
      by (simp add: add_mset_commute)
    then have "mset ps = {#a, b, d#}" by simp
    from mset_eq_3 [OF this] 3 xs show ?thesis by (auto simp: perms4_def)
  next
    case 4
    with assms xs have "add_mset d (mset ps) = add_mset d {#a, b, c#}"
      by (simp add: add_mset_commute)
    then have "mset ps = {#a, b, c#}" by simp
    from mset_eq_3 [OF this] 4 xs show ?thesis by (auto simp: perms4_def)
  qed
qed

text \<open>
  Four LINE entities as the parser hands them over, on the edges of the unit square.
  \<open>flipped i\<close> gives edge \<open>i\<close> its direction; \<open>v\<close> supplies the \<open>z\<close> and \<open>bulge\<close> of the
  eight end points, which no comparison reads.
\<close>

definition placed :: "real \<Rightarrow> real \<Rightarrow> real Vertice \<Rightarrow> real Vertice" where
  "placed a b v = v\<lparr>x := a, y := b\<rparr>"

definition rawLine :: "real Vertice \<Rightarrow> real Vertice \<Rightarrow> Entity" where
  "rawLine p q = (blankEntity LINE)\<lparr>vertices := Some [p, q]\<rparr>"

definition lineWith :: "real Vertice list \<Rightarrow> number Vertice \<Rightarrow> number Vertice \<Rightarrow> bool \<Rightarrow> Entity" where
  "lineWith vs p q r =
     (blankEntity LINE)\<lparr>vertices := Some vs, edges := Some (Some p, Some q), reverse := r\<rparr>"

definition orient :: "bool \<Rightarrow> real Vertice \<Rightarrow> real Vertice \<Rightarrow> Entity" where
  "orient flipped p q = (if flipped then rawLine q p else rawLine p q)"

definition squareLines :: "(nat \<Rightarrow> bool) \<Rightarrow> (nat \<Rightarrow> real Vertice) \<Rightarrow> Entity list" where
  "squareLines flipped v =
     [orient (flipped 0) (placed 0 0 (v 0)) (placed 1 0 (v 1)),
      orient (flipped 1) (placed 1 0 (v 2)) (placed 1 1 (v 3)),
      orient (flipped 2) (placed 1 1 (v 4)) (placed 0 1 (v 5)),
      orient (flipped 3) (placed 0 1 (v 6)) (placed 0 0 (v 7))]"

text \<open>
  The contract taken from the kernel for this property: on a polygon whose faces are
  segments between points with numeric coordinates that follow each other and return
  to the first point, the polygon is built, the validity test returns, and \<open>area\<close> is
  the absolute shoelace sum.
\<close>

fun realPoint :: "Point \<Rightarrow> bool" where
  "realPoint (Num a, Num b) = True"
| "realPoint _ = False"

fun closedChainFrom :: "Point \<Rightarrow> Point \<Rightarrow> Face list \<Rightarrow> bool" where
  "closedChainFrom first cur [] = (cur = first)"
| "closedChainFrom first cur (Segment p q # fs) =
     (p = cur \<and> realPoint q \<and> closedChainFrom first q fs)"
| "closedChainFrom first cur (_ # fs) = False"

fun closedChain :: "Face list \<Rightarrow> bool" where
  "closedChain (Segment p q # fs) = (realPoint p \<and> realPoint q \<and> closedChainFrom p q fs)"
| "closedChain _ = False"

definition shoelaceContract :: "'p Kernel \<Rightarrow> bool" where
  "shoelaceContract K =
     (\<forall>faces. closedChain faces \<longrightarrow>
        (\<exists>P valid. newPolygon K faces = Inr P \<and> isValid K P = Inr valid
                  \<and> Kernel.area K P = Inr (Num (enclosedArea faces))))"

text \<open>
  What is checked of one input order: normalizing and stitching give exactly one shape,
  closed, whose faces form a closed chain enclosing area 1 and whose entity lengths sum
  to 4.
\<close>

definition squareCheck :: "'p itself \<Rightarrow> Entity list \<Rightarrow> bool" where
  "squareCheck t es =
     (case findEdges (Some es) of
        Inl _ \<Rightarrow> False
      | Inr ents \<Rightarrow>
          (case (findShapes ents :: error + 'p FindShapesResult) of
             Inl _ \<Rightarrow> False
           | Inr r \<Rightarrow>
               (case FindShapesResult.shapes r of
                  [sh] \<Rightarrow>
                    closed sh \<and>
                    (case mapM face (entities sh) of
                       Inl _ \<Rightarrow> False
                     | Inr faces \<Rightarrow> closedChain faces \<and> enclosedArea faces = 1) \<and>
                    (case mapM calcEntityLength (entities sh) of
                       Inl _ \<Rightarrow> False
                     | Inr lens \<Rightarrow> foldl (+) (Num 0) lens = Num 4)
                | _ \<Rightarrow> False)))"

lemma findEdge_rawLine:
  "findEdge (rawLine p q) = Inr (lineWith [p, q] (numeric p) (numeric q) False)"
  by (simp add: findEdge_def rawLine_def lineWith_def blankEntity_def firstTwo_def)

lemma lineWith_simps:
  "edges (lineWith vs p q r) = Some (Some p, Some q)"
  "swapEdges (lineWith vs p q r) = lineWith vs q p True"
  "transofrmEntity (lineWith vs p q r) = Inr [lineWith vs p q r]"
  "type (lineWith vs p q r) \<noteq> CIRCLE"
  "face (lineWith vs p q r) = Inr (Segment (x p, y p) (x q, y q))"
  "calcEntityLength (lineWith vs p q r) = Inr (lineLength p q)"
  by (simp_all add: lineWith_def blankEntity_def swapEdges_def transofrmEntity_def face_def
        toPoint_def calcEntityLength_def)

lemma placed_simps:
  "pointsAreEqual (Some (numeric (placed a b v))) (Some (numeric (placed c d w)))
     = Inr (\<bar>a - c\<bar> + \<bar>b - d\<bar> < 0.01)"
  "x (numeric (placed a b v)) = Num a" "y (numeric (placed a b v)) = Num b"
  "lineLength (numeric (placed a b v)) (numeric (placed c d w))
     = Num (sqrt ((a - c)\<^sup>2 + (b - d)\<^sup>2))"
  by (simp_all add: pointsAreEqual_def placed_def EQUAL_TRESHOLD_def lineLength_def numeric_def
        Math_sqrt_def Math_pow_def)

lemmas square_eval = squareCheck_def orient_def findEdges_def findEdge_rawLine findShapes_def
  withEdges_def lineWith_simps placed_simps seedShape_def grow.simps enclosedArea_def

lemma square_perms_a:
  "\<forall>es \<in> set (take 6 (drop 0 (perms4 (orient b0 (placed 0 0 v0) (placed 1 0 v1))
                                       (orient b1 (placed 1 0 v2) (placed 1 1 v3))
                                       (orient b2 (placed 1 1 v4) (placed 0 1 v5))
                                       (orient b3 (placed 0 1 v6) (placed 0 0 v7))))).
     squareCheck TYPE('p) es"
  by (cases b0; cases b1; cases b2; cases b3; simp add: perms4_def square_eval)

lemma square_perms_b:
  "\<forall>es \<in> set (take 6 (drop 6 (perms4 (orient b0 (placed 0 0 v0) (placed 1 0 v1))
                                       (orient b1 (placed 1 0 v2) (placed 1 1 v3))
                                       (orient b2 (placed 1 1 v4) (placed 0 1 v5))
                                       (orient b3 (placed 0 1 v6) (placed 0 0 v7))))).
     squareCheck TYPE('p) es"
  by (cases b0; cases b1; cases b2; cases b3; simp add: perms4_def square_eval)

lemma square_perms_c:
  "\<forall>es \<in> set (take 6 (drop 12 (perms4 (orient b0 (placed 0 0 v0) (placed 1 0 v1))
                                       (orient b1 (placed 1 0 v2) (placed 1 1 v3))
                                       (orient b2 (placed 1 1 v4) (placed 0 1 v5))
                                       (orient b3 (placed 0 1 v6) (placed 0 0 v7))))).
     squareCheck TYPE('p) es"
  by (cases b0; cases b1; cases b2; cases b3; simp add: perms4_def square_eval)

lemma square_perms_d:
  "\<forall>es \<in> set (take 6 (drop 18 (perms4 (orient b0 (placed 0 0 v0) (placed 1 0 v1))
                                       (orient b1 (placed 1 0 v2) (placed 1 1 v3))
                                       (orient b2 (placed 1 1 v4) (placed 0 1 v5))
                                       (orient b3 (placed 0 1 v6) (placed 0 0 v7))))).
     squareCheck TYPE('p) es"
  by (cases b0; cases b1; cases b2; cases b3; simp add: perms4_def square_eval)

lemma square_perms:
  assumes "es \<in> set (perms4 (orient b0 (placed 0 0 v0) (placed 1 0 v1))
                             (orient b1 (placed 1 0 v2) (placed 1 1 v3))
                             (orient b2 (placed 1 1 v4) (placed 0 1 v5))
                             (orient b3 (placed 0 1 v6) (placed 0 0 v7)))"
  shows "squareCheck TYPE('p) es"
proof -
  let ?ps = "perms4 (orient b0 (placed 0 0 v0) (placed 1 0 v1))
                    (orient b1 (placed 1 0 v2) (placed 1 1 v3))
                    (orient b2 (placed 1 1 v4) (placed 0 1 v5))
                    (orient b3 (placed 0 1 v6) (placed 0 0 v7))"
  have split: "take 6 (drop 0 ?ps) @ take 6 (drop 6 ?ps) @ take 6 (drop 12 ?ps) @ take 6 (drop 18 ?ps) = ?ps"
    by (simp add: perms4_def)
  have "es \<in> set (take 6 (drop 0 ?ps) @ take 6 (drop 6 ?ps) @ take 6 (drop 12 ?ps) @ take 6 (drop 18 ?ps))"
    by (simp only: split assms)
  then consider "es \<in> set (take 6 (drop 0 ?ps))" | "es \<in> set (take 6 (drop 6 ?ps))"
    | "es \<in> set (take 6 (drop 12 ?ps))" | "es \<in> set (take 6 (drop 18 ?ps))"
    by (auto simp only: set_append Un_iff)
  then show ?thesis
  proof cases
    case 1
    from square_perms_a 1 show ?thesis by (rule bspec)
  next
    case 2
    from square_perms_b 2 show ?thesis by (rule bspec)
  next
    case 3
    from square_perms_c 3 show ?thesis by (rule bspec)
  next
    case 4
    from square_perms_d 4 show ?thesis by (rule bspec)
  qed
qed

lemma squareCheck_measured:
  assumes "squareCheck TYPE('p) es" and "shoelaceContract (K :: 'p Kernel)"
  shows "\<exists>ents r sh sh' errs.
           findEdges (Some es) = Inr ents \<and> findShapes ents = Inr r
         \<and> FindShapesResult.shapes r = [sh] \<and> closed sh
         \<and> measureShapes K 0 [sh] = Inr ([sh'], errs)
         \<and> Shape.area sh' = Some (Num 1) \<and> Shape.perimeter sh' = Some (Num 4)"
proof -
  from assms(1) obtain ents r sh faces lens where
    e: "findEdges (Some es) = Inr ents" and f: "(findShapes ents :: error + 'p FindShapesResult) = Inr r"
    and one: "FindShapesResult.shapes r = [sh]" and c: "closed sh"
    and fa: "mapM face (entities sh) = Inr faces" and ch: "closedChain faces"
    and ar: "enclosedArea faces = 1"
    and le: "mapM calcEntityLength (entities sh) = Inr lens"
    and pe: "foldl (+) (Num 0) lens = Num 4"
    unfolding squareCheck_def
    by (auto split: sum.splits list.splits)
  from assms(2) ch obtain P valid where
    k: "newPolygon K faces = Inr P" "isValid K P = Inr valid"
      "Kernel.area K P = Inr (Num (enclosedArea faces))"
    unfolding shoelaceContract_def by blast
  have "measureShape K 0 sh
          = Inr (Some (sh\<lparr>polygon := Some P, Shape.area := Some (Num 1),
                            Shape.perimeter := Some (Num 4)\<rparr>),
                 if valid then [] else [''Shape '' @ showNat 0 @ '' is invalid''])"
    using fa k ar le pe by (simp add: measureShape_def createPolygon_def Let_def)
  then have "measureShapes K 0 [sh]
          = Inr ([sh\<lparr>polygon := Some P, Shape.area := Some (Num 1),
                            Shape.perimeter := Some (Num 4)\<rparr>],
                 if valid then [] else [''Shape '' @ showNat 0 @ '' is invalid''])"
    by simp
  with e f one c show ?thesis by fastforce
qed

text \<open>
  C3. For every order of the four lines of the unit square and every choice of direction
  of each, the stitcher produces exactly one shape, the shape is closed, and the
  measurer gives it area 1 and perimeter 4.
\<close>

theorem unit_square_any_order:
  assumes "mset es = mset (squareLines flipped v)"
    and "shoelaceContract K"
  shows "\<exists>ents r sh sh' errs.
           findEdges (Some es) = Inr ents \<and> findShapes ents = Inr r
         \<and> FindShapesResult.shapes r = [sh] \<and> closed sh
         \<and> measureShapes K 0 [sh] = Inr ([sh'], errs)
         \<and> Shape.area sh' = Some (Num 1) \<and> Shape.perimeter sh' = Some (Num 4)"
proof -
  from assms(1) have "es \<in> set (perms4 (orient (flipped 0) (placed 0 0 (v 0)) (placed 1 0 (v 1)))
                                      (orient (flipped 1) (placed 1 0 (v 2)) (placed 1 1 (v 3)))
                                      (orient (flipped 2) (placed 1 1 (v 4)) (placed 0 1 (v 5)))
                                      (orient (flipped 3) (placed 0 1 (v 6)) (placed 0 0 (v 7))))"
    unfolding squareLines_def by (rule mset_eq_4)
  then have "squareCheck TYPE('a) es" by (rule square_perms)
  from squareCheck_measured [OF this assms(2)] show ?thesis .
qed

definition origin :: "real Vertice" where
  "origin = \<lparr> x = 0, y = 0, z = None, bulge = None \<rparr>"

lemma shoelaceContract_listKernel: "shoelaceContract (listKernel inside far)"
  by (auto simp: shoelaceContract_def listKernel_def)

theorem unit_square_any_order_witness:
  "\<exists>ents r sh sh' errs.
     findEdges (Some (rev (squareLines even (\<lambda>_. origin)))) = Inr ents
   \<and> findShapes ents = Inr r
   \<and> FindShapesResult.shapes r = [sh] \<and> closed sh
   \<and> measureShapes (listKernel (\<lambda>_ _. True) probeDistance) 0 [sh] = Inr ([sh'], errs)
   \<and> Shape.area sh' = Some (Num 1) \<and> Shape.perimeter sh' = Some (Num 4)"
proof -
  have m: "mset (rev (squareLines even (\<lambda>_. origin)))
             = mset (squareLines even (\<lambda>_. origin))"
    by (rule mset_rev)
  from unit_square_any_order [OF m shoelaceContract_listKernel] show ?thesis .
qed

section \<open>The pool is consumed exactly once\<close>

text \<open>
  \<open>unoriented\<close> forgets which way round an entity lies (the order of its two edges and
  the \<open>reverse\<close> flag), \<open>expand\<close> is the list of sub-primitives the decurver makes of a
  pool entity, and \<open>pieces\<close> is the multiset of the unoriented sub-primitives of a pool.
\<close>

definition unoriented :: "Entity \<Rightarrow> Entity \<times> number Vertice option set" where
  "unoriented e =
     (e\<lparr>edges := None, reverse := False\<rparr>,
      case edges e of None \<Rightarrow> {} | Some (e0, e1) \<Rightarrow> {e0, e1})"

definition expand :: "Entity \<Rightarrow> Entity list" where
  "expand e = (case transofrmEntity e of Inl _ \<Rightarrow> [] | Inr subs \<Rightarrow> subs)"

definition pieces :: "Entity list \<Rightarrow> (Entity \<times> number Vertice option set) multiset" where
  "pieces pool = image_mset unoriented (mset (concat (map expand pool)))"

lemma unoriented_swapEdges: "unoriented (swapEdges e) = unoriented e"
  by (cases "edges e") (auto simp: unoriented_def swapEdges_def)

lemma unoriented_swapped:
  "image_mset unoriented (image_mset swapEdges M) = image_mset unoriented M"
  by (simp add: multiset.map_comp o_def unoriented_swapEdges)

lemma expand_swapEdges:
  "image_mset unoriented (mset (expand (swapEdges e))) = image_mset unoriented (mset (expand e))"
proof (cases "type e = LWPOLYLINE")
  case False
  then show ?thesis
    using unoriented_swapEdges [of e]
    by (simp add: expand_def transofrmEntity_def swapEdges_def)
next
  case True
  show ?thesis
  proof (cases "vertices e")
    case None
    with True show ?thesis by (simp add: expand_def transofrmEntity_def swapEdges_def)
  next
    case (Some vs)
    with True show ?thesis
      by (simp add: expand_def transofrmEntity_def swapEdges_def Let_def unoriented_swapped)
  qed
qed

lemma pieces_append: "pieces (xs @ ys) = pieces xs + pieces ys"
  by (simp add: pieces_def)

lemma pieces_Cons: "pieces (e # es) = image_mset unoriented (mset (expand e)) + pieces es"
  by (simp add: pieces_def)

lemma transformed_pieces:
  assumes "transofrmEntity entity = Inr subs \<or> transofrmEntity (swapEdges entity) = Inr subs"
  shows "image_mset unoriented (mset subs) = image_mset unoriented (mset (expand entity))"
proof -
  from assms consider "expand entity = subs" | "expand (swapEdges entity) = subs"
    by (auto simp: expand_def)
  then show ?thesis
  proof cases
    case 1
    then show ?thesis by simp
  next
    case 2
    with expand_swapEdges [of entity] show ?thesis by simp
  qed
qed

text \<open>What a successful scan does: one entity leaves the pool and its sub-primitives,
  as they are or reversed, are put at one end of the shape.\<close>

lemma scan_match:
  "scan sh before pool = Inr (Some (sh', pool')) \<Longrightarrow>
   \<exists>pre entity post subs.
     pool = pre @ entity # post \<and> pool' = before @ pre @ post
   \<and> (transofrmEntity entity = Inr subs \<or> transofrmEntity (swapEdges entity) = Inr subs)
   \<and> (entities sh' = subs @ entities sh \<or> entities sh' = entities sh @ subs)"
proof (induction pool arbitrary: before)
  case Nil
  then show ?case by simp
next
  case (Cons entity rest)
  show ?case
  proof (cases "scan sh before (entity # rest) = scan sh (before @ [entity]) rest")
    case True
    with Cons.prems have "scan sh (before @ [entity]) rest = Inr (Some (sh', pool'))" by simp
    from Cons.IH [OF this] obtain pre e post subs where
      "rest = pre @ e # post" "pool' = (before @ [entity]) @ pre @ post"
      "transofrmEntity e = Inr subs \<or> transofrmEntity (swapEdges e) = Inr subs"
      "entities sh' = subs @ entities sh \<or> entities sh' = entities sh @ subs"
      by blast
    then have "entity # rest = (entity # pre) @ e # post \<and> pool' = before @ (entity # pre) @ post
        \<and> (transofrmEntity e = Inr subs \<or> transofrmEntity (swapEdges e) = Inr subs)
        \<and> (entities sh' = subs @ entities sh \<or> entities sh' = entities sh @ subs)"
      by simp
    then show ?thesis by blast
  next
    case False
    with Cons.prems have "\<exists>subs. pool' = before @ rest
      \<and> (transofrmEntity entity = Inr subs \<or> transofrmEntity (swapEdges entity) = Inr subs)
      \<and> (entities sh' = subs @ entities sh \<or> entities sh' = entities sh @ subs)"
      by (auto split: option.splits sum.splits bool.splits; blast)
    then obtain subs where
      "pool' = before @ rest"
      "transofrmEntity entity = Inr subs \<or> transofrmEntity (swapEdges entity) = Inr subs"
      "entities sh' = subs @ entities sh \<or> entities sh' = entities sh @ subs"
      by blast
    then have "entity # rest = [] @ entity # rest \<and> pool' = before @ [] @ rest
        \<and> (transofrmEntity entity = Inr subs \<or> transofrmEntity (swapEdges entity) = Inr subs)
        \<and> (entities sh' = subs @ entities sh \<or> entities sh' = entities sh @ subs)"
      by simp
    then show ?thesis by blast
  qed
qed

lemma scan_pieces:
  assumes "scan sh before pool = Inr (Some (sh', pool'))"
  shows "image_mset unoriented (mset (entities sh')) + pieces pool'
           = image_mset unoriented (mset (entities sh)) + pieces (before @ pool)"
proof -
  from scan_match [OF assms] obtain pre entity post subs where
    p: "pool = pre @ entity # post" "pool' = before @ pre @ post"
    and t: "transofrmEntity entity = Inr subs \<or> transofrmEntity (swapEdges entity) = Inr subs"
    and e: "entities sh' = subs @ entities sh \<or> entities sh' = entities sh @ subs"
    by blast
  from e have "image_mset unoriented (mset (entities sh'))
                 = image_mset unoriented (mset (entities sh)) + image_mset unoriented (mset subs)"
    by auto
  with transformed_pieces [OF t] p show ?thesis
    by (simp add: pieces_append pieces_Cons)
qed


lemma grow_pieces:
  assumes "grow sh pool = Inr (sh', pool')"
  shows "image_mset unoriented (mset (entities sh')) + pieces pool'
           = image_mset unoriented (mset (entities sh)) + pieces pool"
proof -
  let ?total = "image_mset unoriented (mset (entities sh)) + pieces pool"
  have "\<exists>s. image_mset unoriented (mset (entities s)) + pieces pool' = ?total
           \<and> (pointsAreEqual (start s) (end' s) = Inr True \<and> sh' = s\<lparr>closed := True\<rparr>
              \<or> pointsAreEqual (start s) (end' s) = Inr False \<and> sh' = s)"
  proof (rule grow_invariant
      [of sh pool sh' pool' "\<lambda>s p. image_mset unoriented (mset (entities s)) + pieces p = ?total", OF assms])
    show "image_mset unoriented (mset (entities sh)) + pieces pool = ?total" by simp
  next
    fix s p s1 p1
    assume "image_mset unoriented (mset (entities s)) + pieces p = ?total"
      and "scan s [] p = Inr (Some (s1, p1))"
    with scan_pieces [of s "[]" p s1 p1]
    show "image_mset unoriented (mset (entities s1)) + pieces p1 = ?total" by simp
  qed
  then show ?thesis by auto
qed

lemma stitch_pieces:
  "stitch pool = Inr shs \<Longrightarrow>
   image_mset unoriented (mset (concat (map entities shs))) = pieces pool \<and> length shs \<le> length pool"
proof (induction "length pool" arbitrary: pool shs rule: less_induct)
  case less
  show ?case
  proof (cases pool)
    case Nil
    with less.prems show ?thesis by (simp add: pieces_def)
  next
    case (Cons startEntity rest0)
    from less.prems Cons obtain subs e0 e1 b where
      t: "transofrmEntity startEntity = Inr subs" and ed: "edges startEntity = Some (e0, e1)"
      and eq: "pointsAreEqual e0 e1 = Inr b"
      by (auto split: sum.splits option.splits)
    from t have ex: "expand startEntity = subs" by (simp add: expand_def)
    show ?thesis
    proof (cases b)
      case True
      with less.prems Cons t ed eq obtain rest where r: "stitch rest0 = Inr rest"
        and shs: "shs = (seedShape startEntity subs e0 e1)\<lparr>closed := True\<rparr> # rest"
        by (auto split: sum.splits)
      have "length rest0 < length pool" using Cons by simp
      from less.hyps [OF this r] shs ex Cons show ?thesis
        by (simp add: pieces_Cons seedShape_def)
    next
      case False
      with less.prems Cons t ed eq obtain sh1 pool1 rest where
        g: "grow (seedShape startEntity subs e0 e1) rest0 = Inr (sh1, pool1)"
        and r: "stitch pool1 = Inr rest" and shs: "shs = sh1 # rest"
        by (auto split: sum.splits prod.splits)
      from grow_pool_length [OF g] Cons have len: "length pool1 < length pool" by simp
      from grow_pieces [OF g] have
        "image_mset unoriented (mset (entities sh1)) + pieces pool1
           = image_mset unoriented (mset subs) + pieces rest0"
        by (simp add: seedShape_def)
      with less.hyps [OF len r] shs ex Cons len show ?thesis
        by (simp add: pieces_Cons)
    qed
  qed
qed

text \<open>
  An entity on which the stitcher raises no TypeError: both edges are points, and a
  polyline has its vertex array.
\<close>

definition wellFormed :: "Entity \<Rightarrow> bool" where
  "wellFormed e =
     ((\<exists>a b. edges e = Some (Some a, Some b)) \<and> (type e = LWPOLYLINE \<longrightarrow> vertices e \<noteq> None))"

lemma wellFormed_transofrm:
  assumes "wellFormed e"
  shows "\<exists>subs. transofrmEntity e = Inr subs" and "\<exists>subs. transofrmEntity (swapEdges e) = Inr subs"
  using assms by (auto simp: wellFormed_def transofrmEntity_def swapEdges_def Let_def)

lemma pointsAreEqual_total: "\<exists>b. pointsAreEqual (Some p) (Some q) = Inr b"
  by (simp add: pointsAreEqual_def)

lemma scan_total:
  assumes "\<forall>e \<in> set pool. wellFormed e" and "start sh = Some s" and "end' sh = Some t"
  shows "scan sh before pool = Inr None
       \<or> (\<exists>sh' pool' s' t'. scan sh before pool = Inr (Some (sh', pool'))
             \<and> start sh' = Some s' \<and> end' sh' = Some t')"
  using assms(1)
proof (induction pool arbitrary: before)
  case Nil
  then show ?case by simp
next
  case (Cons entity rest)
  from Cons.prems obtain a b where ed: "edges entity = Some (Some a, Some b)"
    by (auto simp: wellFormed_def)
  from Cons.prems wellFormed_transofrm [of entity] obtain subs subs' where
    tr: "transofrmEntity entity = Inr subs" "transofrmEntity (swapEdges entity) = Inr subs'"
    by auto
  obtain b1 b2 b3 b4 where pe: "pointsAreEqual (Some a) (Some s) = Inr b1"
    "pointsAreEqual (Some a) (Some t) = Inr b2" "pointsAreEqual (Some b) (Some s) = Inr b3"
    "pointsAreEqual (Some b) (Some t) = Inr b4"
    using pointsAreEqual_total by metis
  from Cons.prems have "\<forall>e \<in> set rest. wellFormed e" by simp
  from Cons.IH [OF this, of "before @ [entity]"] show ?case
    using ed tr pe assms(2,3) by (cases b1; cases b2; cases b3; cases b4) auto
qed

lemma grow_total:
  "\<forall>e \<in> set pool. wellFormed e \<Longrightarrow> start sh = Some s \<Longrightarrow> end' sh = Some t \<Longrightarrow>
   \<exists>res. grow sh pool = Inr res"
proof (induction "length pool" arbitrary: sh pool s t rule: less_induct)
  case less
  obtain b where pe: "pointsAreEqual (start sh) (end' sh) = Inr b"
    using pointsAreEqual_total less.prems(2,3) by metis
  from scan_total [OF less.prems, of "[]"] consider "scan sh [] pool = Inr None"
    | sh1 pool1 s1 t1 where "scan sh [] pool = Inr (Some (sh1, pool1))"
        "start sh1 = Some s1" "end' sh1 = Some t1"
    by blast
  then show ?case
  proof cases
    case 1
    with pe show ?thesis by (subst grow.simps) (cases b; simp)
  next
    case 2
    obtain b1 where pe1: "pointsAreEqual (start sh1) (end' sh1) = Inr b1"
      using pointsAreEqual_total 2(2,3) by metis
    from scan_shrinks [OF 2(1)] have len: "length pool1 < length pool" by simp
    from scan_subset [OF 2(1)] less.prems(1) have wf: "\<forall>e \<in> set pool1. wellFormed e" by auto
    from less.hyps [OF len wf 2(2,3)] obtain res where "grow sh1 pool1 = Inr res" by blast
    with 2(1) pe1 show ?thesis by (subst grow.simps) (cases b1; simp)
  qed
qed

lemma stitch_total:
  "\<forall>e \<in> set pool. wellFormed e \<Longrightarrow> \<exists>shs. (stitch pool :: error + 'p Shape list) = Inr shs"
proof (induction "length pool" arbitrary: pool rule: less_induct)
  case less
  show ?case
  proof (cases pool)
    case Nil
    then show ?thesis by simp
  next
    case (Cons startEntity rest0)
    from less.prems Cons obtain a b where ed: "edges startEntity = Some (Some a, Some b)"
      by (auto simp: wellFormed_def)
    from less.prems Cons wellFormed_transofrm(1) [of startEntity] obtain subs where
      t: "transofrmEntity startEntity = Inr subs" by auto
    obtain eq where pe: "pointsAreEqual (Some a) (Some b) = Inr eq"
      using pointsAreEqual_total by blast
    have wf0: "\<forall>e \<in> set rest0. wellFormed e" using less.prems Cons by simp
    show ?thesis
    proof (cases eq)
      case True
      have "length rest0 < length pool" using Cons by simp
      from less.hyps [OF this wf0] obtain shs where "(stitch rest0 :: error + 'p Shape list) = Inr shs"
        by blast
      with Cons ed t pe True show ?thesis by simp
    next
      case False
      let ?seed = "seedShape startEntity subs (Some a) (Some b) :: 'p Shape"
      have "start ?seed = Some a" "end' ?seed = Some b" by (simp_all add: seedShape_def)
      from grow_total [OF wf0 this] obtain sh1 pool1 where g: "grow ?seed rest0 = Inr (sh1, pool1)"
        by fastforce
      from grow_pool_length [OF g] Cons have len: "length pool1 < length pool" by simp
      from grow_subset [OF g] wf0 have "\<forall>e \<in> set pool1. wellFormed e" by auto
      from less.hyps [OF len this] obtain shs where "(stitch pool1 :: error + 'p Shape list) = Inr shs"
        by blast
      with Cons ed t pe False g show ?thesis by simp
    qed
  qed
qed

text \<open>
  C9. The loops of \<open>findShapes\<close> terminate: \<open>grow\<close> and \<open>stitch\<close> are total functions, their
  termination proved on the length of the pool, which each seed and each successful
  attachment shorten by exactly one entity. On entities whose edges are points the run
  returns shapes; and whenever it returns, the sub-primitives of the emitted shapes
  are, up to orientation and counted with multiplicity, exactly those of the pool, so
  every pool entity went into exactly one shape, and there are no more shapes than
  pool entities.
\<close>

theorem stitching_partitions_pool:
  "((\<forall>e \<in> set (withEdges ents). wellFormed e)
      \<longrightarrow> (\<exists>res. (findShapes ents :: error + 'p FindShapesResult) = Inr res))
   \<and> ((findShapes ents :: error + 'p FindShapesResult) = Inr r
      \<longrightarrow> image_mset unoriented (mset (concat (map entities (FindShapesResult.shapes r))))
            = pieces (withEdges ents)
        \<and> length (FindShapesResult.shapes r) \<le> length (withEdges ents))
   \<and> ((scan sh [] pool :: error + ('p Shape \<times> Entity list) option) = Inr (Some (sh', pool'))
      \<longrightarrow> Suc (length pool') = length pool)"
proof (intro conjI impI)
  assume "\<forall>e \<in> set (withEdges ents). wellFormed e"
  from stitch_total [OF this, where ?'p = 'p]
  show "\<exists>res. (findShapes ents :: error + 'p FindShapesResult) = Inr res"
    by (auto simp: findShapes_def)
next
  assume "(findShapes ents :: error + 'p FindShapesResult) = Inr r"
  then have st: "stitch (withEdges ents) = Inr (FindShapesResult.shapes r)"
    by (auto simp: findShapes_def split: sum.splits)
  from stitch_pieces [OF st]
  show "image_mset unoriented (mset (concat (map entities (FindShapesResult.shapes r))))
            = pieces (withEdges ents)" by simp
  from stitch_pieces [OF st]
  show "length (FindShapesResult.shapes r) \<le> length (withEdges ents)" by simp
next
  assume "(scan sh [] pool :: error + ('p Shape \<times> Entity list) option) = Inr (Some (sh', pool'))"
  from scan_shrinks [OF this] show "Suc (length pool') = length pool" by simp
qed


definition chainLine :: "real \<Rightarrow> real \<Rightarrow> Entity" where
  "chainLine a b =
     lineWith [placed a 0 origin, placed b 0 origin]
       (numeric (placed a 0 origin)) (numeric (placed b 0 origin)) False"

theorem stitching_partitions_pool_witness:
  "(\<exists>r. (findShapes [chainLine 0 1, chainLine 2 1] :: error + unit FindShapesResult) = Inr r
          \<and> image_mset unoriented (mset (concat (map entities (FindShapesResult.shapes r))))
               = pieces (withEdges [chainLine 0 1, chainLine 2 1])
          \<and> length (FindShapesResult.shapes r) \<le> length (withEdges [chainLine 0 1, chainLine 2 1]))
   \<and> (\<exists>sh' pool'.
          (scan (seedShape (chainLine 0 1) [chainLine 0 1] (Some (numeric (placed 0 0 origin)))
                   (Some (numeric (placed 1 0 origin)))) [] [chainLine 2 1]
             :: error + (unit Shape \<times> Entity list) option) = Inr (Some (sh', pool'))
          \<and> Suc (length pool') = length [chainLine 2 1])"
proof -
  let ?ents = "[chainLine 0 1, chainLine 2 1]"
  let ?seed = "seedShape (chainLine 0 1) [chainLine 0 1] (Some (numeric (placed 0 0 origin)))
                   (Some (numeric (placed 1 0 origin))) :: unit Shape"
  have wf: "\<forall>e \<in> set (withEdges ?ents). wellFormed e"
    by (simp add: withEdges_def wellFormed_def chainLine_def lineWith_def blankEntity_def)
  from wf stitching_partitions_pool [of ?ents, where ?'p = unit]
  obtain r where r: "(findShapes ?ents :: error + unit FindShapesResult) = Inr r" by blast
  have sc: "\<exists>sh' pool'. (scan ?seed [] [chainLine 2 1]
              :: error + (unit Shape \<times> Entity list) option) = Inr (Some (sh', pool'))"
    by (simp add: chainLine_def lineWith_simps placed_simps seedShape_def)
  then obtain sh' pool' where sc': "scan ?seed [] [chainLine 2 1] = Inr (Some (sh', pool'))"
    by blast
  from stitching_partitions_pool [of ?ents r ?seed "[chainLine 2 1]" sh' pool'] wf r sc'
  show ?thesis by blast
qed

end
